theory Spec2Isabelle
  imports Complex_Main "HOL-Library.Multiset"
begin

section \<open>RedCross: Doppler cross-correlation and Kp-Vsys mapping\<close>

text \<open>
  A shallow embedding of \<^verbatim>\<open>redcross/cross_correlation.py\<close> (classes \<^verbatim>\<open>CCF\<close> and
  \<^verbatim>\<open>KpV\<close>) and of \<^verbatim>\<open>redcross/align.py\<close> (class \<^verbatim>\<open>Align\<close>).

  Conventions of the embedding.
  \<^item> A finite float is a \<open>real\<close>; rounding is not modelled. Where an array may hold NaN
    as data (the wavelength axis, the clipped frames of \<^verbatim>\<open>Align\<close>) its entries are
    \<open>real option\<close> with \<open>None\<close> for NaN.
  \<^item> A 1D array is a list, a 2D array a list of rows.
  \<^item> A Python exception is a value \<open>Inl e\<close>. numpy does not raise on a division by
    zero or on the statistics of an empty array: it returns an array holding NaN or
    infinity. Such an outcome is the value \<open>Inl NonFinite\<close>; its entries are not
    modelled further.
  \<^item> Library routines of numpy and scipy are modelled from their documented behaviour;
    classes of the package that are not part of the two files (\<^verbatim>\<open>Template\<close>,
    \<^verbatim>\<open>Planet\<close>) enter as parameters.
\<close>

datatype error =
    ValueError
  | IndexError
  | TypeError
  | AttributeError
  | UnboundLocalError
  | ArangeStepError
  | NonFinite
  | DegenerateInputError

text \<open>
  \<open>ArangeStepError\<close> is what \<^verbatim>\<open>np.arange\<close> raises for a zero or NaN step
  (\<^verbatim>\<open>ZeroDivisionError\<close> or \<^verbatim>\<open>ValueError\<close>, depending on the scalar types).
  \<open>DegenerateInputError\<close> is the name the specification gives to the failure of a frame
  with too few valid points; no function of the source constructs it.
\<close>

subsection \<open>numpy helpers\<close>

definition mean :: "real list \<Rightarrow> real" where
  \<comment> \<open>\<^verbatim>\<open>np.mean\<close> of a non-empty array; every caller below handles the empty array
      (where numpy returns NaN) before this value is used.\<close>
  "mean xs = sum_list xs / real (length xs)"

definition var :: "real list \<Rightarrow> real" where
  \<comment> \<open>\<^verbatim>\<open>np.var\<close>: the population variance.\<close>
  "var xs = mean (map (\<lambda>x. (x - mean xs)\<^sup>2) xs)"

definition std :: "real list \<Rightarrow> real option" where
  \<comment> \<open>\<^verbatim>\<open>np.std\<close>; NaN on the empty array.\<close>
  "std xs = (if xs = [] then None else Some (sqrt (var xs)))"

definition median :: "real list \<Rightarrow> real option" where
  \<comment> \<open>\<^verbatim>\<open>np.median\<close> of the flattened array; NaN on the empty array.\<close>
  "median xs =
     (if xs = [] then None
      else let s = sort xs; n = length s
           in if odd n then Some (s ! (n div 2))
              else Some ((s ! (n div 2 - 1) + s ! (n div 2)) / 2))"

definition arange :: "real \<Rightarrow> real \<Rightarrow> real \<Rightarrow> error + real list" where
  \<comment> \<open>\<^verbatim>\<open>np.arange(start, stop, step)\<close>: \<open>ceil((stop - start) / step)\<close> values.\<close>
  "arange start stop step =
     (if step = 0 then Inl ArangeStepError
      else Inr (map (\<lambda>i. start + real i * step)
                 [0 ..< nat \<lceil>(stop - start) / step\<rceil>]))"

definition truthy_or :: "real option \<Rightarrow> real \<Rightarrow> real" where
  \<comment> \<open>Python's \<^verbatim>\<open>a or b\<close> for an optional float \<open>a\<close>: \<^verbatim>\<open>None\<close> and \<^verbatim>\<open>0.0\<close>
      are falsy.\<close>
  "truthy_or a b = (case a of None \<Rightarrow> b | Some x \<Rightarrow> if x = 0 then b else x)"

subsection \<open>Objects\<close>

text \<open>
  The ephemeris (\<^verbatim>\<open>Planet\<close>) is an external class. Its fields \<^verbatim>\<open>Kp\<close> and
  \<^verbatim>\<open>frame\<close> are the ones the source writes; everything else it holds is the record's
  extension. Ephemeris objects live in a store, so that the copy made by
  \<^verbatim>\<open>deepcopy(planet)\<close> and the object of the caller are told apart.
\<close>

record planet =
  Kp :: real
  frame :: "string option"

type_synonym addr = nat
type_synonym store = "planet list"

definition deepcopy :: "store \<Rightarrow> addr \<Rightarrow> store \<times> addr" where
  \<comment> \<open>a fresh object holding the same value\<close>
  "deepcopy h a = (h @ [h ! a], length h)"

record Datacube =
  dco_wlt :: "real option list"
  dco_flux :: "real list list"
  dco_flux_err :: "real list list option"

text \<open>
  A single-order datacube: the wavelength axis (NaN where the solution is missing), one
  row of flux per frame, and the flux errors when the attribute is set.
\<close>

record Template =
  temp_wlt :: "real list"
  temp_flux :: "real list"

record CCF =
  CCF_rv :: "real list"
  CCF_dRV :: "real option"
  CCF_template :: Template
  CCF_flux :: "real list list"
  CCF_frame :: "string option"
  CCF_spline :: bool

text \<open>
  \<^verbatim>\<open>CCF_dRV\<close> is \<open>None\<close> when \<^verbatim>\<open>np.mean(np.diff(rv))\<close> is NaN (fewer than two trial
  velocities); \<^verbatim>\<open>CCF_frame\<close> is \<open>None\<close> while the attribute is not set.
\<close>

record KpV =
  KpV_ccf :: CCF
  KpV_planet :: addr
  KpV_dRV :: real
  KpV_kpVec :: "real list"
  KpV_vrestVec :: "real list"
  KpV_bkg :: real
  KpV_n_jobs :: nat
  KpV_ccf_map :: "real list list option"
  KpV_indh :: "nat option"
  KpV_indv :: "nat option"
  KpV_peak_pos :: "(real \<times> real) option"
  KpV_peak_snr :: "real option"

subsection \<open>\<^verbatim>\<open>KpV.__init__\<close>\<close>

text \<open>
  \<^verbatim>\<open>
  def __init__(self, ccf=None, planet=None, deltaRV=None,
               kp_radius=50., vrest_max=80., bkg=None):
      if not ccf is None:
          self.ccf = ccf.copy()
          self.planet = deepcopy(planet)
          self.dRV = deltaRV or ccf.dRV
          self.kpVec = self.planet.Kp + np.arange(-kp_radius, kp_radius, self.dRV)
          self.vrestVec = np.arange(-vrest_max, vrest_max+self.dRV, self.dRV)
          self.bkg = bkg or vrest_max*0.60
          try:
              self.planet.frame = self.ccf.frame
          except:
              print('Define data rest frame...')
          self.n_jobs = 6
  \<close>
  The model is the branch \<^verbatim>\<open>ccf is not None\<close>; the other branch sets no attribute.
  The result is the new store and the mapper. An address that is not allocated stands
  for \<^verbatim>\<open>planet=None\<close>, where \<^verbatim>\<open>self.planet.Kp\<close> raises.
\<close>

definition KpV_init ::
  "store \<Rightarrow> CCF \<Rightarrow> addr \<Rightarrow> real option \<Rightarrow> real \<Rightarrow> real \<Rightarrow> real option
     \<Rightarrow> error + (store \<times> KpV)" where
  "KpV_init h ccf p deltaRV kp_radius vrest_max bkg =
     (if length h \<le> p then Inl AttributeError else
      let (h1, q) = deepcopy h p in
      case (case deltaRV of
              None \<Rightarrow> CCF_dRV ccf
            | Some d \<Rightarrow> if d = 0 then CCF_dRV ccf else Some d) of
        None \<Rightarrow> Inl ArangeStepError
      | Some d \<Rightarrow>
         (case arange (- kp_radius) kp_radius d of
            Inl e \<Rightarrow> Inl e
          | Inr ks \<Rightarrow>
             (case arange (- vrest_max) (vrest_max + d) d of
                Inl e \<Rightarrow> Inl e
              | Inr vs \<Rightarrow>
                 (let h2 = (case CCF_frame ccf of
                              None \<Rightarrow> h1
                            | Some f \<Rightarrow> h1[q := (h1 ! q)\<lparr>frame := Some f\<rparr>])
                  in Inr (h2,
                       \<lparr> KpV_ccf = ccf, KpV_planet = q, KpV_dRV = d,
                         KpV_kpVec = map (\<lambda>x. Kp (h1 ! q) + x) ks,
                         KpV_vrestVec = vs,
                         KpV_bkg = truthy_or bkg (vrest_max * 0.60),
                         KpV_n_jobs = 6,
                         KpV_ccf_map = None, KpV_indh = None, KpV_indv = None,
                         KpV_peak_pos = None, KpV_peak_snr = None \<rparr>)))))"

subsection \<open>Interpolation (scipy)\<close>

text \<open>
  \<^verbatim>\<open>interp1d(x, y)\<close> with its defaults (\<^verbatim>\<open>kind='linear'\<close>,
  \<^verbatim>\<open>bounds_error=True\<close>, \<^verbatim>\<open>assume_sorted=False\<close>): the constructor refuses
  arrays of different lengths and the empty array and sorts the samples by \<open>x\<close>
  (a stable sort); a call raises \<^verbatim>\<open>ValueError\<close> for a point outside
  \<open>[x[0], x[-1]]\<close> and otherwise evaluates \<^verbatim>\<open>np.interp\<close>: with \<open>j\<close> the last
  index such that \<open>x[j] \<le> x_new\<close>, the value is \<open>y[j]\<close> when \<open>j\<close> is the last
  index or \<open>x_new = x[j]\<close>, and \<open>slope * (x_new - x[j]) + y[j]\<close> otherwise.
\<close>

fun interp_at :: "(real \<times> real) list \<Rightarrow> real \<Rightarrow> real" where
  "interp_at [] x = 0"
| "interp_at [(x0, y0)] x = y0"
| "interp_at ((x0, y0) # (x1, y1) # ps) x =
     (if x1 \<le> x then interp_at ((x1, y1) # ps) x
      else if x = x0 then y0
      else (y1 - y0) / (x1 - x0) * (x - x0) + y0)"

text \<open>The first equation is never reached: the constructor refuses the empty array.\<close>

definition interp1d :: "real list \<Rightarrow> real list \<Rightarrow> error + (real \<times> real) list" where
  "interp1d x y =
     (if length x \<noteq> length y \<or> x = [] then Inl ValueError
      else Inr (sort_key fst (zip x y)))"

definition interp_call :: "(real \<times> real) list \<Rightarrow> real list \<Rightarrow> error + real list" where
  "interp_call ps xs =
     (if \<exists>x \<in> set xs. x < fst (hd ps) \<or> fst (last ps) < x then Inl ValueError
      else Inr (map (interp_at ps) xs))"

text \<open>
  \<^verbatim>\<open>splrep(x, y)\<close> with its defaults (\<open>k = 3\<close>, no weights, hence \<open>s = 0\<close>: the
  interpolating cubic spline): \<^verbatim>\<open>TypeError\<close> when the lengths differ or when
  \<open>m \<le> k\<close> (\<^verbatim>\<open>'m > k must hold'\<close>), \<^verbatim>\<open>ValueError\<close> when \<open>x\<close> is not strictly
  increasing. The spline itself (FITPACK) is a parameter \<open>spl\<close> of the functions below:
  \<open>spl cs x\<close> is \<^verbatim>\<open>splev(x, cs)\<close> for the representation \<open>cs\<close> of the samples.
\<close>

definition splrep :: "real list \<Rightarrow> real list \<Rightarrow> error + (real \<times> real) list" where
  "splrep x y =
     (if length x \<noteq> length y \<or> length x \<le> 3 then Inl TypeError
      else if \<not> sorted_wrt (<) x then Inl ValueError
      else Inr (zip x y))"

fun collect :: "(error + 'a) list \<Rightarrow> error + 'a list" where
  "collect [] = Inr []"
| "collect (r # rs) =
     (case r of
        Inl e \<Rightarrow> Inl e
      | Inr x \<Rightarrow> (case collect rs of Inl e \<Rightarrow> Inl e | Inr xs \<Rightarrow> Inr (x # xs)))"

subsection \<open>\<^verbatim>\<open>CCF.cross_correlation\<close>\<close>

text \<open>
  \<^verbatim>\<open>
  c = 2.998e5 # km/s

  def cross_correlation(self, dco, noise='var'):
      nans = np.isnan(dco.wlt)
      wave, flux = dco.wlt[~nans], dco.flux[:,~nans]
      f = flux - np.mean(flux)

      temp = self.template.copy().crop(np.min(wave), np.max(wave), eps=0.40)
      temp.flux -= np.mean(temp.flux)

      beta = 1 - (self.rv/c)
      if self.spline:
          cs = splrep(temp.wlt, temp.flux)
          g = np.array([splev(wave*b, cs) for b in beta])
      else:
          _inter = interp1d(temp.wlt, temp.flux)
          g = np.array([_inter(wave*b) for b in beta])

      if noise == 'flux_err':
          noise2 = np.mean(dco.flux_err[:, ~nans]**2, axis=0)
      elif noise == 'var':
          noise2 = np.var(f, axis=0)
      elif noise == 'ones':
          noise2 = 1.

      return np.dot(f/noise2, g.T)
  \<close>
  \<^verbatim>\<open>Template.crop\<close> is not part of the two files: it is the parameter \<open>crop\<close>
  (\<open>crop wmin wmax eps t\<close>).
\<close>

definition c :: real where
  "c = 299800"

definition select :: "bool list \<Rightarrow> 'a list \<Rightarrow> 'a list" where
  \<comment> \<open>\<^verbatim>\<open>a[mask]\<close> for a boolean mask of the length of \<open>a\<close>\<close>
  "select keep xs = map snd (filter fst (zip keep xs))"

definition column :: "real list list \<Rightarrow> nat \<Rightarrow> real list" where
  "column m j = map (\<lambda>row. row ! j) m"

definition not_nan :: "real option list \<Rightarrow> bool list" where
  \<comment> \<open>\<^verbatim>\<open>~np.isnan(wlt)\<close>\<close>
  "not_nan wlt = map (\<lambda>w. w \<noteq> None) wlt"

definition usable :: "Datacube \<Rightarrow> error + (real list \<times> real list list)" where
  \<comment> \<open>\<^verbatim>\<open>wave, flux = dco.wlt[~nans], dco.flux[:,~nans]\<close>; a mask that does not have
      the length of the rows is an \<^verbatim>\<open>IndexError\<close>.\<close>
  "usable dco =
     (let keep = not_nan (dco_wlt dco) in
      if \<exists>row \<in> set (dco_flux dco). length row \<noteq> length keep then Inl IndexError
      else Inr (map the (select keep (dco_wlt dco)), map (select keep) (dco_flux dco)))"

definition center_flux :: "real list list \<Rightarrow> real list list" where
  \<comment> \<open>\<^verbatim>\<open>f = flux - np.mean(flux)\<close>: \<^verbatim>\<open>np.mean\<close> without an axis is the mean of all
      the entries of the 2D array.\<close>
  "center_flux flux = map (map (\<lambda>x. x - mean (concat flux))) flux"

definition center_template :: "Template \<Rightarrow> Template" where
  \<comment> \<open>\<^verbatim>\<open>temp.flux -= np.mean(temp.flux)\<close>\<close>
  "center_template temp =
     temp\<lparr>temp_flux := map (\<lambda>y. y - mean (temp_flux temp)) (temp_flux temp)\<rparr>"

definition beta :: "real list \<Rightarrow> real list" where
  "beta rv = map (\<lambda>v. 1 - v / c) rv"

definition shifted_template ::
  "((real \<times> real) list \<Rightarrow> real \<Rightarrow> real) \<Rightarrow> bool \<Rightarrow> Template \<Rightarrow> real list \<Rightarrow> real list
     \<Rightarrow> error + real list list" where
  \<comment> \<open>the matrix \<open>g\<close>: one row per trial velocity\<close>
  "shifted_template spl spline temp rv wave =
     (if spline then
        (case splrep (temp_wlt temp) (temp_flux temp) of
           Inl e \<Rightarrow> Inl e
         | Inr cs \<Rightarrow> Inr (map (\<lambda>b. map (\<lambda>w. spl cs (w * b)) wave) (beta rv)))
      else
        (case interp1d (temp_wlt temp) (temp_flux temp) of
           Inl e \<Rightarrow> Inl e
         | Inr ps \<Rightarrow> collect (map (\<lambda>b. interp_call ps (map (\<lambda>w. w * b) wave)) (beta rv))))"

definition operands ::
  "(real \<Rightarrow> real \<Rightarrow> real \<Rightarrow> Template \<Rightarrow> Template) \<Rightarrow> ((real \<times> real) list \<Rightarrow> real \<Rightarrow> real)
     \<Rightarrow> CCF \<Rightarrow> Datacube \<Rightarrow> error + (real list list \<times> real list list)" where
  \<comment> \<open>the centred flux \<open>f\<close> and the template matrix \<open>g\<close> of the dot product;
      \<^verbatim>\<open>np.min\<close> of an empty \<open>wave\<close> is a \<^verbatim>\<open>ValueError\<close>.\<close>
  "operands crop spl self dco =
     (case usable dco of
        Inl e \<Rightarrow> Inl e
      | Inr (wave, flux) \<Rightarrow>
         (let f = center_flux flux in
          if wave = [] then Inl ValueError
          else
            (let temp = center_template
                          (crop (Min (set wave)) (Max (set wave)) 0.40 (CCF_template self))
             in case shifted_template spl (CCF_spline self) temp (CCF_rv self) wave of
                  Inl e \<Rightarrow> Inl e
                | Inr g \<Rightarrow> Inr (f, g))))"

datatype noise_mode = Noise_flux_err | Noise_var | Noise_ones | Noise_other

text \<open>
  \<open>Noise_other\<close> is any other value of \<^verbatim>\<open>noise\<close>: no branch binds \<^verbatim>\<open>noise2\<close>.
  The denominators are one value per usable pixel, \<open>None\<close> for NaN (the mean or the
  variance over no frame at all); the scalar \<open>1.\<close> of the mode \<^verbatim>\<open>'ones'\<close> is
  broadcast.
\<close>

definition noise2 ::
  "noise_mode \<Rightarrow> Datacube \<Rightarrow> real list list \<Rightarrow> nat \<Rightarrow> error + real option list" where
  "noise2 noise dco f n =
     (case noise of
        Noise_flux_err \<Rightarrow>
          (case dco_flux_err dco of
             None \<Rightarrow> Inl AttributeError
           | Some err \<Rightarrow>
              (let keep = not_nan (dco_wlt dco) in
               if \<exists>row \<in> set err. length row \<noteq> length keep then Inl IndexError
               else
                 (let e2 = map (\<lambda>row. map (\<lambda>x. x\<^sup>2) (select keep row)) err
                  in Inr (map (\<lambda>j. if e2 = [] then None else Some (mean (column e2 j)))
                            [0 ..< n]))))
      | Noise_var \<Rightarrow>
          Inr (map (\<lambda>j. if f = [] then None else Some (var (column f j))) [0 ..< n])
      | Noise_ones \<Rightarrow> Inr (replicate n (Some 1))
      | Noise_other \<Rightarrow> Inl UnboundLocalError)"

definition weighted :: "real list list \<Rightarrow> real option list \<Rightarrow> error + real list list" where
  \<comment> \<open>\<^verbatim>\<open>f/noise2\<close>; a zero or NaN denominator leaves NaN or infinity in the array.\<close>
  "weighted f d =
     (if f \<noteq> [] \<and> (\<exists>x \<in> set d. x = None \<or> x = Some 0) then Inl NonFinite
      else Inr (map (\<lambda>row. map2 (\<lambda>x y. x / the y) row d) f))"

definition dot :: "real list list \<Rightarrow> real list list \<Rightarrow> real list list" where
  \<comment> \<open>\<^verbatim>\<open>np.dot(a, g.T)\<close>\<close>
  "dot a g = map (\<lambda>row. map (\<lambda>grow. sum_list (map2 (*) row grow)) g) a"

definition cross_correlation ::
  "(real \<Rightarrow> real \<Rightarrow> real \<Rightarrow> Template \<Rightarrow> Template) \<Rightarrow> ((real \<times> real) list \<Rightarrow> real \<Rightarrow> real)
     \<Rightarrow> CCF \<Rightarrow> Datacube \<Rightarrow> noise_mode \<Rightarrow> error + real list list" where
  "cross_correlation crop spl self dco noise =
     (case operands crop spl self dco of
        Inl e \<Rightarrow> Inl e
      | Inr (f, g) \<Rightarrow>
         (case noise2 noise dco f (length (select (not_nan (dco_wlt dco)) (dco_wlt dco))) of
            Inl e \<Rightarrow> Inl e
          | Inr d \<Rightarrow>
             (case weighted f d of
                Inl e \<Rightarrow> Inl e
              | Inr a \<Rightarrow> Inr (dot a g))))"

subsection \<open>\<^verbatim>\<open>CCF.__prepare_template\<close>\<close>

text \<open>
  \<^verbatim>\<open>
  def __prepare_template(self, wave):
      temp2D = self.template.shift_2D(self.rv, wave)
      if self.window > 0.:
          temp2D.high_pass_gaussian(window=self.window)
      self.gTemp = temp2D.flux
      self.gTemp -= np.nanmean(self.gTemp, axis=0)
      return self
  \<close>
  No method of the two files calls it, and \<^verbatim>\<open>cross_correlation\<close> does not read
  \<^verbatim>\<open>gTemp\<close>. The matrix \<^verbatim>\<open>temp2D.flux\<close> comes from \<^verbatim>\<open>Template.shift_2D\<close>;
  the last step subtracts from every column (\<^verbatim>\<open>axis=0\<close>: over the trial velocities)
  its mean over the entries that are not NaN.
\<close>

definition nanmean :: "real option list \<Rightarrow> real option" where
  "nanmean xs =
     (let ys = map the (filter (\<lambda>x. x \<noteq> None) xs)
      in if ys = [] then None else Some (mean ys))"

definition center_columns :: "real option list list \<Rightarrow> real option list list" where
  "center_columns m =
     map (\<lambda>row. map (\<lambda>j. case (row ! j, nanmean (map (\<lambda>r. r ! j) m)) of
                           (Some x, Some mu) \<Rightarrow> Some (x - mu)
                         | _ \<Rightarrow> None) [0 ..< length row]) m"

subsection \<open>\<^verbatim>\<open>KpV.run\<close>\<close>

text \<open>
  \<^verbatim>\<open>
  def run(self, ignore_eclipse=True, ax=None):
      ecl = False * np.ones_like(self.planet.RV)
      if ignore_eclipse:
          ecl = self.planet.mask_eclipse(return_mask=True)
      ccf_map = np.zeros((len(self.kpVec), len(self.vrestVec)))
      for ikp in range(len(self.kpVec)):
          self.planet.Kp = self.kpVec[ikp]
          pRV = self.planet.RV
          for iObs in np.where(ecl==False)[0]:
              outRV = self.vrestVec + pRV[iObs]
              ccf_map[ikp,] += interp1d(self.ccf.rv, self.ccf.flux[iObs,])(outRV)
      self.ccf_map = ccf_map
      return self
  \<close>
  \<^verbatim>\<open>Planet.RV\<close> and \<^verbatim>\<open>Planet.mask_eclipse\<close> are not part of the two files: they are
  the parameters \<open>RV\<close> and \<open>mask_eclipse\<close>, functions of the state of the ephemeris.
  The assignment \<^verbatim>\<open>self.planet.Kp = ...\<close> writes the store at the address of the
  mapper's ephemeris.
\<close>

fun stack_frames ::
  "CCF \<Rightarrow> real list \<Rightarrow> real list \<Rightarrow> nat list \<Rightarrow> real list \<Rightarrow> error + real list" where
  "stack_frames ccf vs pRV [] acc = Inr acc"
| "stack_frames ccf vs pRV (iObs # rest) acc =
     (if length pRV \<le> iObs \<or> length (CCF_flux ccf) \<le> iObs then Inl IndexError
      else
        (case interp1d (CCF_rv ccf) (CCF_flux ccf ! iObs) of
           Inl e \<Rightarrow> Inl e
         | Inr ps \<Rightarrow>
            (case interp_call ps (map (\<lambda>v. v + pRV ! iObs) vs) of
               Inl e \<Rightarrow> Inl e
             | Inr r \<Rightarrow> stack_frames ccf vs pRV rest (map2 (+) acc r))))"

fun run_loop ::
  "(planet \<Rightarrow> real list) \<Rightarrow> CCF \<Rightarrow> real list \<Rightarrow> nat list \<Rightarrow> addr \<Rightarrow> store \<Rightarrow> real list
     \<Rightarrow> error + (store \<times> real list list)" where
  "run_loop RV ccf vs frames q h [] = Inr (h, [])"
| "run_loop RV ccf vs frames q h (kp # kps) =
     (let h1 = h[q := (h ! q)\<lparr>Kp := kp\<rparr>] in
      case stack_frames ccf vs (RV (h1 ! q)) frames (replicate (length vs) 0) of
        Inl e \<Rightarrow> Inl e
      | Inr row \<Rightarrow>
         (case run_loop RV ccf vs frames q h1 kps of
            Inl e \<Rightarrow> Inl e
          | Inr (h2, rows) \<Rightarrow> Inr (h2, row # rows)))"

definition run ::
  "(planet \<Rightarrow> real list) \<Rightarrow> (planet \<Rightarrow> bool list) \<Rightarrow> store \<Rightarrow> KpV \<Rightarrow> bool
     \<Rightarrow> error + (store \<times> KpV)" where
  "run RV mask_eclipse h self ignore_eclipse =
     (let q = KpV_planet self;
          ecl = (if ignore_eclipse then mask_eclipse (h ! q)
                 else replicate (length (RV (h ! q))) False);
          frames = filter (\<lambda>i. \<not> ecl ! i) [0 ..< length ecl]
      in case run_loop RV (KpV_ccf self) (KpV_vrestVec self) frames q h (KpV_kpVec self) of
           Inl e \<Rightarrow> Inl e
         | Inr (h', m) \<Rightarrow> Inr (h', self\<lparr>KpV_ccf_map := Some m\<rparr>))"

subsection \<open>\<^verbatim>\<open>KpV.snr\<close>, \<^verbatim>\<open>KpV.noise\<close>, \<^verbatim>\<open>KpV.baseline\<close>\<close>

text \<open>
  \<^verbatim>\<open>
  @property
  def snr(self):
      noise_region = np.abs(self.vrestVec)>self.bkg
      noise = np.std(self.ccf_map[:,noise_region])
      bkg = np.median(self.ccf_map[:,noise_region])
      return((self.ccf_map - bkg) / noise)

  @property
  def noise(self):
      noise_region = np.abs(self.vrestVec)>self.bkg
      return np.std(self.ccf_map[:,noise_region])

  @property
  def baseline(self):
      noise_region = np.abs(self.vrestVec)>self.bkg
      return np.median(self.ccf_map[:,noise_region])
  \<close>
  Before \<^verbatim>\<open>run\<close> the attribute \<^verbatim>\<open>ccf_map\<close> does not exist. A boolean index whose
  length is not the number of columns is an \<^verbatim>\<open>IndexError\<close>. The statistics of an
  empty background are NaN; a zero noise leaves NaN or infinity in the surface.
\<close>

definition noise_region :: "KpV \<Rightarrow> bool list" where
  "noise_region self = map (\<lambda>v. \<bar>v\<bar> > KpV_bkg self) (KpV_vrestVec self)"

definition background :: "KpV \<Rightarrow> error + real list" where
  \<comment> \<open>the entries of \<^verbatim>\<open>self.ccf_map[:,noise_region]\<close>, row after row\<close>
  "background self =
     (case KpV_ccf_map self of
        None \<Rightarrow> Inl AttributeError
      | Some m \<Rightarrow>
         if \<exists>row \<in> set m. length row \<noteq> length (noise_region self) then Inl IndexError
         else Inr (concat (map (select (noise_region self)) m)))"

definition noise :: "KpV \<Rightarrow> error + real option" where
  "noise self = (case background self of Inl e \<Rightarrow> Inl e | Inr b \<Rightarrow> Inr (std b))"

definition baseline :: "KpV \<Rightarrow> error + real option" where
  "baseline self = (case background self of Inl e \<Rightarrow> Inl e | Inr b \<Rightarrow> Inr (median b))"

definition snr :: "KpV \<Rightarrow> error + real list list" where
  "snr self =
     (case background self of
        Inl e \<Rightarrow> Inl e
      | Inr b \<Rightarrow>
         (let m = the (KpV_ccf_map self) in
          if concat m = [] then Inr m
          else
            (case (std b, median b) of
               (Some n, Some b0) \<Rightarrow>
                 if n = 0 then Inl NonFinite
                 else Inr (map (map (\<lambda>x. (x - b0) / n)) m)
             | _ \<Rightarrow> Inl NonFinite)))"

subsection \<open>\<^verbatim>\<open>KpV.snr_at_peak\<close>, default search\<close>

text \<open>
  \<^verbatim>\<open>
  def snr_at_peak(self, peak=None):
      if peak is None:
          snr = self.snr
          mask_kp = np.abs(self.kpVec - self.kpVec.mean()) < 10.
          mask_dv = np.abs(self.vrestVec) < 5. # around 0.0 km/s
          snr[~mask_kp, :] = snr.min()
          snr[:, ~mask_dv] = snr.min()
          indh,indv = np.where(snr == snr.max())
          self.indh, self.indv = int(indh), int(indv)
          self.peak_pos = (float(self.vrestVec[self.indv]), float(self.kpVec[self.indh]))
      elif ...
      self.peak_snr = float(self.snr[self.indh,self.indv])
      return self
  \<close>
  The model is the branch \<^verbatim>\<open>peak is None\<close>. \<^verbatim>\<open>snr.min()\<close> of an array without
  entries is a \<^verbatim>\<open>ValueError\<close>; \<^verbatim>\<open>np.where\<close> lists the positions of the maximum in
  row-major order, and \<^verbatim>\<open>int(indh)\<close> is a \<^verbatim>\<open>TypeError\<close> unless there is exactly one
  (the element of an array of size one is what NumPy returned when the source was
  written; the conversion is deprecated since NumPy 1.25, and where it is refused the
  search raises on every surface).
  A surface that holds NaN has no position equal to its maximum: on the outcome
  \<open>NonFinite\<close> of \<open>snr\<close> the search ends in that \<^verbatim>\<open>TypeError\<close>, unless the row
  mask does not fit first. The second clamp uses the
  minimum of the surface after the first clamp, as the source does; \<^verbatim>\<open>peak_snr\<close> is
  read from a fresh, unclamped surface.
\<close>

definition clamp_rows :: "bool list \<Rightarrow> real list list \<Rightarrow> real list list" where
  \<comment> \<open>\<^verbatim>\<open>snr[~mask_kp, :] = snr.min()\<close>\<close>
  "clamp_rows mask_kp s =
     map (\<lambda>(keep, row). if keep then row else replicate (length row) (Min (set (concat s))))
       (zip mask_kp s)"

definition clamp_cols :: "bool list \<Rightarrow> real list list \<Rightarrow> real list list" where
  \<comment> \<open>\<^verbatim>\<open>snr[:, ~mask_dv] = snr.min()\<close>\<close>
  "clamp_cols mask_dv s =
     map (\<lambda>row. map (\<lambda>(keep, x). if keep then x else Min (set (concat s))) (zip mask_dv row)) s"

definition argwhere_max :: "real list list \<Rightarrow> (nat \<times> nat) list" where
  \<comment> \<open>\<^verbatim>\<open>np.where(snr == snr.max())\<close>\<close>
  "argwhere_max s =
     concat (map (\<lambda>i. map (\<lambda>j. (i, j))
                        (filter (\<lambda>j. s ! i ! j = Max (set (concat s))) [0 ..< length (s ! i)]))
               [0 ..< length s])"

definition snr_at_peak :: "KpV \<Rightarrow> error + KpV" where
  "snr_at_peak self =
     (case snr self of
        Inl e \<Rightarrow>
          if e = NonFinite then
            (if length (the (KpV_ccf_map self)) \<noteq> length (KpV_kpVec self) then Inl IndexError
             else Inl TypeError)
          else Inl e
      | Inr s \<Rightarrow>
         (let mask_kp = map (\<lambda>k. \<bar>k - mean (KpV_kpVec self)\<bar> < 10) (KpV_kpVec self);
              mask_dv = map (\<lambda>v. \<bar>v\<bar> < 5) (KpV_vrestVec self)
          in if concat s = [] then Inl ValueError
             else if length s \<noteq> length mask_kp then Inl IndexError
             else
               (let s1 = clamp_rows mask_kp s in
                if \<exists>row \<in> set s1. length row \<noteq> length mask_dv then Inl IndexError
                else
                  (case argwhere_max (clamp_cols mask_dv s1) of
                     [(indh, indv)] \<Rightarrow>
                       Inr (self\<lparr> KpV_indh := Some indh, KpV_indv := Some indv,
                                  KpV_peak_pos :=
                                    Some (KpV_vrestVec self ! indv, KpV_kpVec self ! indh),
                                  KpV_peak_snr := Some (s ! indh ! indv) \<rparr>)
                   | _ \<Rightarrow> Inl TypeError))))"

subsection \<open>\<^verbatim>\<open>KpV.merge_kpvs\<close>\<close>

text \<open>
  \<^verbatim>\<open>
  def merge_kpvs(self, kpv_list):
      new_kpv = kpv_list[0].copy()
      new_kpv.ccf_map = np.sum([(k.ccf_map - k.baseline) for k in kpv_list], axis=0)
      return new_kpv
  \<close>
  The comprehension evaluates every \<^verbatim>\<open>k.baseline\<close>, in the order of the list, before
  \<^verbatim>\<open>np.sum\<close> builds one array of the maps, which is a \<^verbatim>\<open>ValueError\<close> when their
  shapes differ. A NaN baseline (an empty background) leaves NaN in the sum.
\<close>

definition sum_maps :: "real list list list \<Rightarrow> real list list" where
  \<comment> \<open>\<^verbatim>\<open>np.sum(maps, axis=0)\<close> for maps of one shape\<close>
  "sum_maps ms =
     (case ms of
        [] \<Rightarrow> []
      | m # _ \<Rightarrow>
         map (\<lambda>i. map (\<lambda>j. sum_list (map (\<lambda>a. a ! i ! j) ms)) [0 ..< length (m ! i)])
           [0 ..< length m])"

definition merge_kpvs :: "KpV list \<Rightarrow> error + KpV" where
  "merge_kpvs kpv_list =
     (case kpv_list of
        [] \<Rightarrow> Inl IndexError
      | new_kpv # _ \<Rightarrow>
         (case collect (map baseline kpv_list) of
            Inl e \<Rightarrow> Inl e
          | Inr bs \<Rightarrow>
             (let ms = map (\<lambda>k. the (KpV_ccf_map k)) kpv_list in
              if \<exists>m \<in> set ms. map length m \<noteq> map length (hd ms) then Inl ValueError
              else if concat (hd ms) \<noteq> [] \<and> None \<in> set bs then Inl NonFinite
              else
                Inr (new_kpv\<lparr>KpV_ccf_map :=
                       Some (sum_maps
                               (map (\<lambda>(m, b). map (map (\<lambda>x. x - the b)) m) (zip ms bs)))\<rparr>))))"

text \<open>
  The term \<^verbatim>\<open>k.ccf_map - k.baseline\<close> of the comprehension, for a map that exists and a
  baseline that is a number.
\<close>

definition subtracted :: "KpV \<Rightarrow> real list list" where
  "subtracted k = map (map (\<lambda>x. x - the (projr (baseline k)))) (the (KpV_ccf_map k))"

subsection \<open>\<^verbatim>\<open>Align.clip\<close>, \<^verbatim>\<open>Align.xcorr\<close>, \<^verbatim>\<open>Align.get_shift\<close>\<close>

text \<open>
  \<^verbatim>\<open>
  @staticmethod
  def xcorr(f,g):
      nx = len(f)
      R = np.dot(f,g)/nx
      varf = np.dot(f,f)/nx
      varg = np.dot(g,g)/nx
      CC = R / np.sqrt(varf*varg)
      return CC

  @staticmethod
  def clip(f, sigma=3.):
      mean, std = np.mean(f), np.std(f)
      mask = np.abs(f - mean) > std*sigma
      f[mask] = np.nan
      return f

  def get_shift(self, j, ax=None):
      f, g = self.dco.flux[0], self.dco.flux[j]
      f = self.clip(f)
      g = self.clip(g)
      nans = np.isnan(f)+np.isnan(g)
      fw = self.pixels[~nans]
      cs = splrep(self.pixels[~nans], g[~nans])
      self.ccf[j] = np.array([self.xcorr(f[~nans], splev(fw+s, cs)) for s in self.RVt])
      return self
  \<close>
  The state of the aligner: the working copy of the flux (\<^verbatim>\<open>self.dco.flux\<close>, NaN as
  \<open>None\<close>), the pixel axis, the trial shifts and the matrix \<^verbatim>\<open>self.ccf\<close>. A frame that
  already holds NaN has a NaN mean: every comparison is false and \<^verbatim>\<open>clip\<close> changes
  nothing. \<^verbatim>\<open>clip\<close> writes into its argument, a view of a row of the flux: row \<open>0\<close> is
  clipped first, then row \<open>j\<close> as it stands after that. A zero denominator in
  \<^verbatim>\<open>xcorr\<close> gives NaN (\<open>None\<close>). The source has no check of the number of valid
  points and defines no exception of its own.
\<close>

record Align =
  Align_flux :: "real option list list"
  Align_pixels :: "real list"
  Align_RVt :: "real list"
  Align_ccf :: "real option list list"

definition xcorr :: "real list \<Rightarrow> real list \<Rightarrow> real option" where
  "xcorr f g =
     (let nx = real (length f);
          R = sum_list (map2 (*) f g) / nx;
          varf = sum_list (map2 (*) f f) / nx;
          varg = sum_list (map2 (*) g g) / nx
      in if varf * varg = 0 then None else Some (R / sqrt (varf * varg)))"

definition clip :: "real option list \<Rightarrow> real \<Rightarrow> real option list" where
  "clip f sigma =
     (if f = [] \<or> None \<in> set f then f
      else
        (let xs = map the f; mu = mean xs; sd = sqrt (var xs)
         in map (\<lambda>x. if \<bar>x - mu\<bar> > sd * sigma then None else Some x) xs))"

definition clipped :: "Align \<Rightarrow> nat \<Rightarrow> real option list list" where
  "clipped self j =
     (let flux1 = (Align_flux self)[0 := clip (Align_flux self ! 0) 3]
      in flux1[j := clip (flux1 ! j) 3])"

definition valid :: "Align \<Rightarrow> nat \<Rightarrow> bool list" where
  "valid self j =
     map (\<lambda>(a, b). a \<noteq> None \<and> b \<noteq> None) (zip (clipped self j ! 0) (clipped self j ! j))"

definition get_shift :: "((real \<times> real) list \<Rightarrow> real \<Rightarrow> real) \<Rightarrow> Align \<Rightarrow> nat \<Rightarrow> error + Align" where
  "get_shift spl self j =
     (if length (Align_flux self) \<le> j \<or> length (Align_ccf self) \<le> j then Inl IndexError
      else
        (let f = clipped self j ! 0; g = clipped self j ! j; keep = valid self j in
         if length (Align_pixels self) \<noteq> length keep then Inl IndexError
         else
           (let fw = select keep (Align_pixels self) in
            case splrep fw (map the (select keep g)) of
              Inl e \<Rightarrow> Inl e
            | Inr cs \<Rightarrow>
               Inr (self\<lparr> Align_flux := clipped self j,
                          Align_ccf := (Align_ccf self)
                            [j := map (\<lambda>s. xcorr (map the (select keep f))
                                               (map (\<lambda>x. spl cs (x + s)) fw))
                                    (Align_RVt self)] \<rparr>))))"

subsection \<open>The template crop and the properties the specification words\<close>

text \<open>
  Modelled from the spec: \<^verbatim>\<open>Template.crop\<close> is missing from the two files. The
  specification says that the template is cropped to the covered wavelength range with
  an edge margin \<open>eps\<close>, so that the shifted evaluation points stay inside its support:
  \<open>crop_window\<close> keeps the samples between \<open>wmin - eps\<close> and \<open>wmax + eps\<close>. It
  instantiates the parameter \<open>crop\<close> in the examples, whose templates lie inside
  \<open>[wmin, wmax]\<close>: there every margin keeps every sample.
\<close>

definition crop_window :: "real \<Rightarrow> real \<Rightarrow> real \<Rightarrow> Template \<Rightarrow> Template" where
  "crop_window wmin wmax eps t =
     (let keep = map (\<lambda>w. wmin - eps \<le> w \<and> w \<le> wmax + eps) (temp_wlt t)
      in \<lparr>temp_wlt = select keep (temp_wlt t), temp_flux = select keep (temp_flux t)\<rparr>)"

text \<open>
  The centring of the flux as the specification words it: every frame minus the mean of
  that frame.
\<close>

definition spec_center_per_frame :: "real list list \<Rightarrow> real list list" where
  "spec_center_per_frame flux = map (\<lambda>row. map (\<lambda>x. x - mean row) row) flux"

text \<open>
  The property of the interpolating spline that the parameter \<open>spl\<close> stands for: it
  passes through its samples.
\<close>

definition interpolates :: "((real \<times> real) list \<Rightarrow> real \<Rightarrow> real) \<Rightarrow> bool" where
  "interpolates spl =
     (\<forall>cs x y. sorted_wrt (<) (map fst cs) \<and> (x, y) \<in> set cs \<longrightarrow> spl cs x = y)"

subsection \<open>Example inputs\<close>

definition ccf_example :: CCF where
  "ccf_example =
     \<lparr> CCF_rv = [-100, -50, 0, 50, 100], CCF_dRV = Some 50,
       CCF_template = \<lparr>temp_wlt = [1, 2, 3], temp_flux = [0, 3, 0]\<rparr>,
       CCF_flux = [[0, 1, 4, 1, 0]], CCF_frame = Some ''telluric'', CCF_spline = False \<rparr>"

definition ccf_zero :: CCF where
  "ccf_zero =
     \<lparr> CCF_rv = [0], CCF_dRV = None,
       CCF_template = \<lparr>temp_wlt = [1, 3, 5], temp_flux = [0, 3, 0]\<rparr>,
       CCF_flux = [], CCF_frame = None, CCF_spline = False \<rparr>"

definition ccf_spline_example :: CCF where
  "ccf_spline_example =
     \<lparr> CCF_rv = [0], CCF_dRV = None,
       CCF_template = \<lparr>temp_wlt = [1, 2, 3, 5], temp_flux = [0, 3, 0, 1]\<rparr>,
       CCF_flux = [], CCF_frame = None, CCF_spline = True \<rparr>"

definition dco_example :: Datacube where
  "dco_example =
     \<lparr> dco_wlt = [Some 1, Some 2, None, Some 5],
       dco_flux = [[1, 3, 9, 2], [5, 7, 9, 6]],
       dco_flux_err = None \<rparr>"

text \<open>
  Three mappers: a \<open>3 \<times> 3\<close> surface whose largest value lies outside the search
  window, the grid that \<open>KpV_init\<close> builds for a resolution of \<open>50\<close> km/s, where no
  grid point lies inside the window, and a row whose two points inside the window hold
  the same value.
\<close>

definition kpv_peak :: KpV where
  "kpv_peak =
     \<lparr> KpV_ccf = ccf_example, KpV_planet = 0, KpV_dRV = 20,
       KpV_kpVec = [80, 100, 120], KpV_vrestVec = [-80, 0, 80], KpV_bkg = 48, KpV_n_jobs = 6,
       KpV_ccf_map = Some [[2, 14, 6], [6, 10, 2], [2, 8, 6]],
       KpV_indh = None, KpV_indv = None, KpV_peak_pos = None, KpV_peak_snr = None \<rparr>"

definition kpv_grid :: KpV where
  "kpv_grid =
     \<lparr> KpV_ccf = ccf_example, KpV_planet = 1, KpV_dRV = 50,
       KpV_kpVec = [50, 100], KpV_vrestVec = [-80, -30, 20, 70, 120], KpV_bkg = 48,
       KpV_n_jobs = 6, KpV_ccf_map = None,
       KpV_indh = None, KpV_indv = None, KpV_peak_pos = None, KpV_peak_snr = None \<rparr>"

definition kpv_tie :: KpV where
  "kpv_tie =
     \<lparr> KpV_ccf = ccf_example, KpV_planet = 0, KpV_dRV = 1,
       KpV_kpVec = [100], KpV_vrestVec = [-80, -1, 1, 80], KpV_bkg = 48, KpV_n_jobs = 6,
       KpV_ccf_map = Some [[2, 10, 10, 6]],
       KpV_indh = None, KpV_indv = None, KpV_peak_pos = None, KpV_peak_snr = None \<rparr>"

text \<open>
  A mapper with one trial \<open>Kp\<close> and three columns, all of them background.
\<close>

definition kpv_bg :: "real list list \<Rightarrow> KpV" where
  "kpv_bg m =
     \<lparr> KpV_ccf = ccf_example, KpV_planet = 0, KpV_dRV = 20,
       KpV_kpVec = [100], KpV_vrestVec = [-80, -60, 60], KpV_bkg = 48, KpV_n_jobs = 6,
       KpV_ccf_map = Some m,
       KpV_indh = None, KpV_indv = None, KpV_peak_pos = None, KpV_peak_snr = None \<rparr>"

text \<open>
  The mapper that \<open>KpV_init\<close> builds for \<open>kp_radius = 75\<close>, \<open>vrest_max = 50\<close> and a
  resolution of \<open>50\<close> km/s; two aligners, one whose frames share two valid pixels and one
  with four flat pixels.
\<close>

definition kpv_run_example :: KpV where
  "kpv_run_example =
     \<lparr> KpV_ccf = ccf_example, KpV_planet = 1, KpV_dRV = 50,
       KpV_kpVec = [25, 75, 125], KpV_vrestVec = [-50, 0, 50], KpV_bkg = 30,
       KpV_n_jobs = 6, KpV_ccf_map = None,
       KpV_indh = None, KpV_indv = None, KpV_peak_pos = None, KpV_peak_snr = None \<rparr>"

definition align_example :: Align where
  "align_example =
     \<lparr> Align_flux = [[Some 1, Some 2, None, Some 3, None], [Some 2, None, Some 1, Some 3, Some 4]],
       Align_pixels = [0, 1, 2, 3, 4], Align_RVt = [-1, 0, 1],
       Align_ccf = [[Some 0, Some 0, Some 0], [Some 0, Some 0, Some 0]] \<rparr>"

definition align_flat :: Align where
  "align_flat =
     \<lparr> Align_flux = [[Some 1, Some 1, Some 1, Some 1], [Some 1, Some 1, Some 1, Some 1]],
       Align_pixels = [0, 1, 2, 3], Align_RVt = [0],
       Align_ccf = [[Some 0], [Some 0]] \<rparr>"

section \<open>Auxiliary facts\<close>

lemma interp_at_knot:
  "sorted_wrt (<) (map fst ps) \<Longrightarrow> (x, y) \<in> set ps \<Longrightarrow> interp_at ps x = y"
proof (induction ps x rule: interp_at.induct)
  case (3 x0 y0 x1 y1 ps x)
  then show ?case by (auto; fastforce)
qed auto

lemma collect_Inr:
  "collect rs = Inr xs \<Longrightarrow> length xs = length rs \<and> (\<forall>k < length rs. rs ! k = Inr (xs ! k))"
proof (induction rs arbitrary: xs)
  case (Cons r rs)
  then show ?case
    by (auto split: sum.splits simp: nth_Cons split: nat.splits)
qed simp

lemma sum_centered: "sum_list (map (\<lambda>y. y - mean ys) ys) = 0"
  by (cases "ys = []") (simp_all add: mean_def sum_list_subtractf sum_list_replicate map_replicate_const)

lemma length_select_not_nan:
  "length row = length wlt \<Longrightarrow> length (select (not_nan wlt) row) = length (select (not_nan wlt) wlt)"
  unfolding select_def not_nan_def
  by (induction row wlt rule: list_induct2) auto

lemma usable_example: "usable dco_example = Inr ([1, 2, 5], [[1, 3, 2], [5, 7, 6]])"
  by (simp add: usable_def dco_example_def not_nan_def select_def)

lemma operands_example:
  "operands crop_window interp_at ccf_zero dco_example
     = Inr ([[-3, -1, -2], [1, 3, 2]], [[-1, 1/2, -1]])"
  by (simp add: operands_def usable_example ccf_zero_def select_def center_flux_def mean_def crop_window_def center_template_def shifted_template_def interp1d_def beta_def c_def interp_call_def)

lemma usable_Inr:
  assumes "usable dco = Inr (wave, flux)"
  shows "wave = map the (select (not_nan (dco_wlt dco)) (dco_wlt dco))"
    and "flux = map (select (not_nan (dco_wlt dco))) (dco_flux dco)"
    and "\<forall>row \<in> set (dco_flux dco). length row = length (dco_wlt dco)"
proof -
  have c: "\<not> (\<exists>row \<in> set (dco_flux dco). length row \<noteq> length (not_nan (dco_wlt dco)))"
    using assms unfolding usable_def Let_def by (meson Inl_Inr_False)
  then show "\<forall>row \<in> set (dco_flux dco). length row = length (dco_wlt dco)"
    by (simp add: not_nan_def)
  from c assms have "Inr (wave, flux) = Inr (map the (select (not_nan (dco_wlt dco)) (dco_wlt dco)),
      map (select (not_nan (dco_wlt dco))) (dco_flux dco))"
    unfolding usable_def Let_def by simp
  then show "wave = map the (select (not_nan (dco_wlt dco)) (dco_wlt dco))"
    and "flux = map (select (not_nan (dco_wlt dco))) (dco_flux dco)"
    by simp_all
qed

lemma usable_shape:
  assumes "usable dco = Inr (wave, flux)" "i < length flux"
  shows "length (flux ! i) = length wave"
proof -
  note u = usable_Inr[OF assms(1)]
  have i: "i < length (dco_flux dco)" using assms(2) u(2) by simp
  then have "length (dco_flux dco ! i) = length (dco_wlt dco)"
    using u(3) by simp
  then have "length (select (not_nan (dco_wlt dco)) (dco_flux dco ! i))
               = length (select (not_nan (dco_wlt dco)) (dco_wlt dco))"
    by (rule length_select_not_nan)
  then have "length (select (not_nan (dco_wlt dco)) (dco_flux dco ! i)) = length wave"
    using u(1) by simp
  then show ?thesis using u(2) i by simp
qed

lemma operands_Inr:
  assumes "operands crop spl self dco = Inr (f, g)" "usable dco = Inr (wave, flux)"
  shows "f = center_flux flux"
    and "wave \<noteq> []"
    and "shifted_template spl (CCF_spline self)
           (center_template (crop (Min (set wave)) (Max (set wave)) 0.40 (CCF_template self)))
           (CCF_rv self) wave = Inr g"
proof -
  have o: "operands crop spl self dco =
     (if wave = [] then Inl ValueError
      else case shifted_template spl (CCF_spline self)
           (center_template (crop (Min (set wave)) (Max (set wave)) 0.40 (CCF_template self)))
           (CCF_rv self) wave of Inl e \<Rightarrow> Inl e | Inr g \<Rightarrow> Inr (center_flux flux, g))"
    unfolding operands_def Let_def assms(2) by simp
  show w: "wave \<noteq> []" using assms(1) o by (metis Inl_Inr_False)
  from o w assms(1) show "f = center_flux flux"
    by (simp split: sum.splits)
  from o w assms(1) show "shifted_template spl (CCF_spline self)
           (center_template (crop (Min (set wave)) (Max (set wave)) 0.40 (CCF_template self)))
           (CCF_rv self) wave = Inr g"
    by (simp split: sum.splits)
qed

lemma usable_flux_err: "usable (dco\<lparr>dco_flux_err := e\<rparr>) = usable dco"
  by (simp add: usable_def Let_def)

lemma operands_flux_err:
  "operands crop spl self (dco\<lparr>dco_flux_err := e\<rparr>) = operands crop spl self dco"
  by (simp add: operands_def usable_flux_err)

lemma noise2_ones: "noise2 Noise_ones dco f n = Inr (replicate n (Some 1))"
  by (simp add: noise2_def)

lemma dco_example_wlt: "dco_wlt dco_example = [Some 1, Some 2, None, Some 5]"
  by (simp add: dco_example_def)

lemma cc_ones_example:
  "cross_correlation crop_window interp_at ccf_zero dco_example Noise_ones = Inr [[9/2], [-3/2]]"
  by (simp add: cross_correlation_def operands_example noise2_ones dco_example_wlt not_nan_def select_def weighted_def dot_def)

lemma interp1d_sorted:
  assumes "interp1d xs ys = Inr ps" "sorted_wrt (<) xs"
  shows "ps = zip xs ys \<and> length xs = length ys \<and> xs \<noteq> []"
proof -
  from assms(1) have l: "length xs = length ys" "xs \<noteq> []" and ps: "ps = sort_key fst (zip xs ys)"
    by (auto simp: interp1d_def split: if_splits)
  have "sorted xs" using assms(2) by (simp add: strict_sorted_iff)
  then have "sorted (map fst (zip xs ys))" using l by simp
  then have "sort_key fst (zip xs ys) = zip xs ys" by (rule sort_key_id_if_sorted)
  with l ps show ?thesis by simp
qed

lemma shifted_template_zero:
  assumes g: "shifted_template spl spline temp rv wave = Inr g"
      and srt: "sorted_wrt (<) (temp_wlt temp)"
      and spl: "spline \<longrightarrow> interpolates spl"
      and k: "k < length rv" "rv ! k = 0"
      and j: "j < length wave"
      and i: "i < length (temp_wlt temp)" "wave ! j = temp_wlt temp ! i"
  shows "g ! k ! j = temp_flux temp ! i \<and> length (temp_wlt temp) = length (temp_flux temp)"
proof (cases spline)
  case True
  with g obtain cs where cs: "splrep (temp_wlt temp) (temp_flux temp) = Inr cs"
      and gd: "g = map (\<lambda>b. map (\<lambda>w. spl cs (w * b)) wave) (beta rv)"
    by (auto simp: shifted_template_def split: sum.splits)
  from cs have l: "length (temp_wlt temp) = length (temp_flux temp)" and csd: "cs = zip (temp_wlt temp) (temp_flux temp)"
    by (auto simp: splrep_def split: if_splits)
  have b: "beta rv ! k = 1" using k by (simp add: beta_def)
  have m: "(temp_wlt temp ! i, temp_flux temp ! i) \<in> set cs"
    using i l csd by (force simp: set_zip)
  have s: "sorted_wrt (<) (map fst cs)" using srt l csd by simp
  from spl True have "interpolates spl" by simp
  with s m have "spl cs (temp_wlt temp ! i) = temp_flux temp ! i"
    unfolding interpolates_def by blast
  then show ?thesis using gd k j i b l by (simp add: beta_def)
next
  case False
  with g obtain ps where ps: "interp1d (temp_wlt temp) (temp_flux temp) = Inr ps"
      and gd: "collect (map (\<lambda>b. interp_call ps (map (\<lambda>w. w * b) wave)) (beta rv)) = Inr g"
    by (auto simp: shifted_template_def split: sum.splits)
  from interp1d_sorted[OF ps srt]
  have l: "length (temp_wlt temp) = length (temp_flux temp)" and psd: "ps = zip (temp_wlt temp) (temp_flux temp)"
    by simp_all
  have b: "beta rv ! k = 1" using k by (simp add: beta_def)
  have kb: "k < length (beta rv)" using k by (simp add: beta_def)
  from collect_Inr[OF gd] kb
  have "interp_call ps (map (\<lambda>w. w * (beta rv ! k)) wave) = Inr (g ! k)"
    by simp
  then have gk: "g ! k = map (interp_at ps) wave"
    using b by (auto simp: interp_call_def split: if_splits)
  have m: "(temp_wlt temp ! i, temp_flux temp ! i) \<in> set ps"
    using i l psd by (force simp: set_zip)
  have s: "sorted_wrt (<) (map fst ps)" using srt l psd by simp
  from interp_at_knot[OF s m] gk j i l show ?thesis by simp
qed


lemma interpolates_interp_at: "interpolates interp_at"
  unfolding interpolates_def using interp_at_knot by blast

lemma crop_spline_example:
  "crop_window 1 5 0.40 (CCF_template ccf_spline_example)
     = \<lparr>temp_wlt = [1, 2, 3, 5], temp_flux = [0, 3, 0, 1]\<rparr>"
  by (simp add: crop_window_def ccf_spline_example_def select_def)

lemma operands_spline_example:
  "operands crop_window interp_at ccf_spline_example dco_example
     = Inr ([[-3, -1, -2], [1, 3, 2]], [[-1, 2, 0]])"
  by (simp add: operands_def usable_example ccf_spline_example_def crop_window_def select_def
        center_flux_def mean_def center_template_def shifted_template_def splrep_def beta_def
        c_def)

lemma select_agree:
  "length xs = length ys \<Longrightarrow> (\<forall>j < length xs. j < length keep \<and> keep ! j \<longrightarrow> xs ! j = ys ! j)
     \<Longrightarrow> select keep xs = select keep ys"
proof (induction keep arbitrary: xs ys)
  case Nil
  then show ?case by (simp add: select_def)
next
  case (Cons k keep)
  show ?case
  proof (cases xs)
    case Nil
    with Cons.prems show ?thesis by (simp add: select_def)
  next
    case (Cons x xs')
    with Cons.prems(1) obtain y ys' where ys: "ys = y # ys'" and l: "length xs' = length ys'"
      by (cases ys) auto
    have "\<forall>j < length xs'. j < length keep \<and> keep ! j \<longrightarrow> xs' ! j = ys' ! j"
      using Cons.prems(2) Cons ys by fastforce
    from Cons.IH[OF l this] have t: "select keep xs' = select keep ys'" .
    have h: "k \<longrightarrow> x = y" using Cons.prems(2) Cons ys by fastforce
    show ?thesis using t h Cons ys by (simp add: select_def)
  qed
qed


lemma same_shape_set:
  assumes "length m2 = length m1" "\<forall>i < length m1. length (m2 ! i) = length (m1 ! i)"
  shows "(\<exists>row \<in> set m2. length row \<noteq> n) = (\<exists>row \<in> set m1. length row \<noteq> n)"
proof -
  have "map length m2 = map length m1"
    using assms by (simp add: list_eq_iff_nth_eq)
  then have "set (map length m2) = set (map length m1)" by simp
  then have "length ` set m2 = length ` set m1" by simp
  then show ?thesis by (metis (no_types, lifting) image_iff)
qed

lemma background_agree:
  assumes m1: "KpV_ccf_map self = Some m1"
      and l: "length m2 = length m1"
      and sh: "\<forall>i < length m1. length (m2 ! i) = length (m1 ! i)"
      and ag: "\<forall>i < length m1. \<forall>j < length (m1 ! i).
                 j < length (KpV_vrestVec self) \<and> \<bar>KpV_vrestVec self ! j\<bar> > KpV_bkg self
                   \<longrightarrow> m2 ! i ! j = m1 ! i ! j"
  shows "background (self\<lparr>KpV_ccf_map := Some m2\<rparr>) = background self"
proof -
  let ?R = "noise_region self"
  have R: "noise_region (self\<lparr>KpV_ccf_map := Some m2\<rparr>) = ?R"
    by (simp add: noise_region_def)
  have rows: "map (select ?R) m2 = map (select ?R) m1"
  proof (rule nth_equalityI)
    show "length (map (select ?R) m2) = length (map (select ?R) m1)"
      using l by simp
  next
    fix i assume "i < length (map (select ?R) m2)"
    then have i: "i < length m1" using l by simp
    have "select ?R (m2 ! i) = select ?R (m1 ! i)"
    proof (rule select_agree)
      show "length (m2 ! i) = length (m1 ! i)" using sh i by simp
    next
      show "\<forall>j < length (m2 ! i). j < length ?R \<and> ?R ! j \<longrightarrow> m2 ! i ! j = m1 ! i ! j"
        using ag sh i by (auto simp: noise_region_def)
    qed
    then show "map (select ?R) m2 ! i = map (select ?R) m1 ! i"
      using i l by simp
  qed
  show ?thesis
    unfolding background_def R
    using m1 rows same_shape_set[OF l sh, of "length ?R"] by simp
qed

lemma select_nth:
  "length keep = length xs \<Longrightarrow>
     select keep xs = map ((!) xs) (filter (\<lambda>j. keep ! j) [0 ..< length xs])"
proof (induction keep xs rule: list_induct2)
  case Nil
  then show ?case by (simp add: select_def)
next
  case (Cons k keep x xs)
  have u: "[0 ..< length (x # xs)] = 0 # map Suc [0 ..< length xs]"
    by (simp add: upt_conv_Cons map_Suc_upt del: upt_Suc)
  have f: "\<And>b. filter (\<lambda>j. (b # keep) ! j) (map Suc [0 ..< length xs])
             = map Suc (filter (\<lambda>j. keep ! j) [0 ..< length xs])"
    by (simp add: filter_map comp_def)
  have s: "select (k # keep) (x # xs) = (if k then [x] else []) @ select keep xs"
    by (simp add: select_def)
  show ?case
    unfolding s u using Cons.IH f by (simp add: comp_def)
qed

lemma background_entries:
  assumes m: "KpV_ccf_map self = Some m"
      and fit: "\<forall>row \<in> set m. length row = length (KpV_vrestVec self)"
  shows "background self
           = Inr (concat (map (\<lambda>row. map ((!) row)
                                   (filter (\<lambda>j. \<bar>KpV_vrestVec self ! j\<bar> > KpV_bkg self)
                                      [0 ..< length row])) m))"
proof -
  have "map (select (noise_region self)) m
          = map (\<lambda>row. map ((!) row)
                          (filter (\<lambda>j. \<bar>KpV_vrestVec self ! j\<bar> > KpV_bkg self)
                             [0 ..< length row])) m"
  proof (rule map_cong[OF refl])
    fix row assume r: "row \<in> set m"
    then have l: "length (noise_region self) = length row"
      using fit by (simp add: noise_region_def)
    have "filter (\<lambda>j. noise_region self ! j) [0 ..< length row]
            = filter (\<lambda>j. \<bar>KpV_vrestVec self ! j\<bar> > KpV_bkg self) [0 ..< length row]"
      by (rule filter_cong[OF refl]) (use l in \<open>simp add: noise_region_def\<close>)
    then show "select (noise_region self) row
                 = map ((!) row) (filter (\<lambda>j. \<bar>KpV_vrestVec self ! j\<bar> > KpV_bkg self)
                                    [0 ..< length row])"
      using select_nth[OF l] by simp
  qed
  then have e: "concat (map (select (noise_region self)) m)
          = concat (map (\<lambda>row. map ((!) row)
                          (filter (\<lambda>j. \<bar>KpV_vrestVec self ! j\<bar> > KpV_bkg self)
                             [0 ..< length row])) m)"
    by (rule arg_cong)
  have "\<not> (\<exists>row \<in> set m. length row \<noteq> length (noise_region self))"
    using fit by (simp add: noise_region_def)
  then have "background self = Inr (concat (map (select (noise_region self)) m))"
    using m by (simp add: background_def)
  then show ?thesis
    unfolding e .
qed

lemma background_peak: "background kpv_peak = Inr [2, 6, 6, 2, 2, 6]"
  by (simp add: background_def kpv_peak_def noise_region_def select_def)

lemma std_example: "std [2, 6, 6, 2, 2, 6] = Some 2"
  by (simp add: std_def var_def mean_def)

lemma median_example: "median [2, 6, 6, 2, 2, 6] = Some 4"
  by (simp add: median_def)

lemma ccf_map_peak: "KpV_ccf_map kpv_peak = Some [[2, 14, 6], [6, 10, 2], [2, 8, 6]]"
  by (simp add: kpv_peak_def)

lemma snr_peak: "snr kpv_peak = Inr [[-1, 5, 1], [1, 3, -1], [-1, 2, 1]]"
  by (simp add: snr_def background_peak std_example median_example ccf_map_peak)

lemma in_concat_nth:
  "x \<in> set (concat m) \<longleftrightarrow> (\<exists>i < length m. \<exists>j < length (m ! i). m ! i ! j = x)"
proof
  assume "x \<in> set (concat m)"
  then obtain row where r: "row \<in> set m" "x \<in> set row" by auto
  from r(1) obtain i where i: "i < length m" "m ! i = row" by (auto simp: in_set_conv_nth)
  from r(2) obtain j where j: "j < length row" "row ! j = x" by (auto simp: in_set_conv_nth)
  from i j show "\<exists>i < length m. \<exists>j < length (m ! i). m ! i ! j = x" by auto
next
  assume "\<exists>i < length m. \<exists>j < length (m ! i). m ! i ! j = x"
  then obtain i j where "i < length m" "j < length (m ! i)" "m ! i ! j = x" by blast
  then have "m ! i \<in> set m" "x \<in> set (m ! i)" by auto
  then show "x \<in> set (concat m)" by auto
qed

lemma std_nonzero_two_values:
  assumes "std b = Some n" "n \<noteq> 0"
  shows "\<exists>x \<in> set b. \<exists>y \<in> set b. x \<noteq> y"
proof (rule ccontr)
  assume "\<not> (\<exists>x \<in> set b. \<exists>y \<in> set b. x \<noteq> y)"
  then have eq: "\<forall>x \<in> set b. x = hd b"
    using assms(1) by (cases b) (auto simp: std_def)
  have ne: "b \<noteq> []" using assms(1) by (auto simp: std_def split: if_splits)
  from eq have b: "b = replicate (length b) (hd b)"
    by (metis map_eq_conv map_ident map_replicate_const)
  have "sum_list b = real (length b) * hd b"
    by (subst b) (simp add: sum_list_replicate)
  then have m: "mean b = hd b" using ne by (simp add: mean_def)
  have "map (\<lambda>x. (x - mean b)\<^sup>2) b = replicate (length b) 0"
    using eq m by (simp add: map_replicate_const[symmetric])
  then have "var b = 0"
    by (simp add: var_def mean_def sum_list_replicate)
  then show False using assms ne by (simp add: std_def)
qed

lemma select_subset: "set (select keep xs) \<subseteq> set xs"
  unfolding select_def by (auto dest: set_zip_rightD)

lemma background_positions:
  assumes "background self = Inr b" "KpV_ccf_map self = Some m" "x \<in> set b"
  shows "\<exists>i < length m. \<exists>j < length (m ! i). m ! i ! j = x"
proof -
  from assms(1,2) have "b = concat (map (select (noise_region self)) m)"
    by (auto simp: background_def split: if_splits)
  with assms(3) obtain row where "row \<in> set m" "x \<in> set (select (noise_region self) row)"
    by auto
  then have "x \<in> set (concat m)" using select_subset by fastforce
  then show ?thesis by (rule iffD1[OF in_concat_nth])
qed

lemma snr_two_positions:
  assumes "snr self = Inr s" "concat s \<noteq> []"
  shows "length s = length (the (KpV_ccf_map self))
       \<and> (\<forall>i < length s. length (s ! i) = length (the (KpV_ccf_map self) ! i))
       \<and> (\<exists>i j i' j'. i < length s \<and> j < length (s ! i) \<and> i' < length s \<and> j' < length (s ! i')
              \<and> (i, j) \<noteq> (i', j'))"
proof -
  from assms(1) obtain b where b: "background self = Inr b"
    by (auto simp: snr_def split: sum.splits)
  then obtain m where m: "KpV_ccf_map self = Some m"
    by (auto simp: background_def split: option.splits)
  have ne: "concat m \<noteq> []"
    using assms b m by (auto simp: snr_def Let_def split: if_splits)
  with assms(1) b m obtain n b0 where n: "std b = Some n" "n \<noteq> 0"
      and s: "s = map (map (\<lambda>x. (x - b0) / n)) m"
    by (auto simp: snr_def Let_def split: option.splits if_splits)
  from std_nonzero_two_values[OF n] obtain x y where xy: "x \<in> set b" "y \<in> set b" "x \<noteq> y"
    by blast
  from background_positions[OF b m xy(1)] obtain i j
    where ij: "i < length m" "j < length (m ! i)" "m ! i ! j = x" by blast
  from background_positions[OF b m xy(2)] obtain i' j'
    where ij': "i' < length m" "j' < length (m ! i')" "m ! i' ! j' = y" by blast
  have d: "(i, j) \<noteq> (i', j')" using ij ij' xy(3) by auto
  have l: "length s = length m" using s by simp
  have r: "\<forall>i < length s. length (s ! i) = length (m ! i)" using s by simp
  have "i < length s \<and> j < length (s ! i) \<and> i' < length s \<and> j' < length (s ! i')
          \<and> (i, j) \<noteq> (i', j')"
    using l r ij ij' d by simp
  then have "\<exists>i j i' j'. i < length s \<and> j < length (s ! i) \<and> i' < length s
                \<and> j' < length (s ! i') \<and> (i, j) \<noteq> (i', j')"
    by blast
  with l r m show ?thesis by simp
qed

lemma clamp_rows_shape:
  assumes "length mask_kp = length s"
  shows "length (clamp_rows mask_kp s) = length s"
    and "i < length s \<Longrightarrow> length (clamp_rows mask_kp s ! i) = length (s ! i)"
    and "i < length s \<Longrightarrow> j < length (s ! i) \<Longrightarrow>
           clamp_rows mask_kp s ! i ! j = (if mask_kp ! i then s ! i ! j else Min (set (concat s)))"
  using assms by (simp_all add: clamp_rows_def)

lemma clamp_cols_shape:
  assumes "\<forall>row \<in> set s. length row = length mask_dv"
  shows "length (clamp_cols mask_dv s) = length s"
    and "i < length s \<Longrightarrow> length (clamp_cols mask_dv s ! i) = length (s ! i)"
    and "i < length s \<Longrightarrow> j < length (s ! i) \<Longrightarrow>
           clamp_cols mask_dv s ! i ! j = (if mask_dv ! j then s ! i ! j else Min (set (concat s)))"
  using assms by (simp_all add: clamp_cols_def)

lemma argwhere_max_set:
  "(i, j) \<in> set (argwhere_max s)
     \<longleftrightarrow> i < length s \<and> j < length (s ! i) \<and> s ! i ! j = Max (set (concat s))"
  by (auto simp: argwhere_max_def)

lemma Min_concat_le:
  assumes "i < length m" "j < length (m ! i)"
  shows "Min (set (concat m)) \<le> m ! i ! j"
proof -
  have "m ! i \<in> set m" "m ! i ! j \<in> set (m ! i)"
    using assms by simp_all
  then have "m ! i ! j \<in> set (concat m)"
    by auto
  then show ?thesis by simp
qed

lemma Max_concat_ge:
  assumes "i < length m" "j < length (m ! i)"
  shows "m ! i ! j \<le> Max (set (concat m))"
proof -
  have "m ! i \<in> set m" "m ! i ! j \<in> set (m ! i)"
    using assms by simp_all
  then have "m ! i ! j \<in> set (concat m)"
    by auto
  then show ?thesis by simp
qed

lemma Min_concat_ge:
  assumes "concat m \<noteq> []" "\<forall>i < length m. \<forall>j < length (m ! i). a \<le> m ! i ! j"
  shows "a \<le> Min (set (concat m))"
proof -
  have "\<forall>x \<in> set (concat m). a \<le> x"
  proof
    fix x assume "x \<in> set (concat m)"
    then have "\<exists>i < length m. \<exists>j < length (m ! i). m ! i ! j = x"
      by (rule iffD1[OF in_concat_nth])
    then obtain i j where "i < length m" "j < length (m ! i)" "m ! i ! j = x"
      by blast
    then show "a \<le> x" using assms(2) by auto
  qed
  moreover have "set (concat m) \<noteq> {}" using assms(1) by simp
  ultimately show ?thesis by simp
qed

lemma concat_nonempty_shape:
  assumes "concat s \<noteq> []" "length s' = length s" "\<forall>i < length s. length (s' ! i) = length (s ! i)"
  shows "concat s' \<noteq> []"
proof -
  from assms(1) obtain x where "x \<in> set (concat s)" by (cases "concat s") auto
  then have "\<exists>i < length s. \<exists>j < length (s ! i). s ! i ! j = x"
    by (rule iffD1[OF in_concat_nth])
  then obtain i j where ij: "i < length s" "j < length (s ! i)"
    by blast
  then have "i < length s'" "j < length (s' ! i)" using assms by simp_all
  then have "s' ! i \<in> set s'" "s' ! i ! j \<in> set (s' ! i)" by simp_all
  then have "s' ! i ! j \<in> set (concat s')" by auto
  then show ?thesis by (metis empty_iff list.set(1))
qed

lemma clamped_peak_in_window:
  assumes ne: "concat s \<noteq> []"
      and lk: "length mask_kp = length s"
      and ld: "\<forall>row \<in> set (clamp_rows mask_kp s). length row = length mask_dv"
      and two: "\<exists>i j i' j'. i < length s \<and> j < length (s ! i) \<and> i' < length s \<and> j' < length (s ! i')
                  \<and> (i, j) \<noteq> (i', j')"
      and hit: "argwhere_max (clamp_cols mask_dv (clamp_rows mask_kp s)) = [(indh, indv)]"
  shows "indh < length s \<and> indv < length (s ! indh) \<and> mask_kp ! indh \<and> mask_dv ! indv"
proof -
  let ?s1 = "clamp_rows mask_kp s"
  let ?s2 = "clamp_cols mask_dv ?s1"
  let ?low = "Min (set (concat s))"
  let ?lowc = "Min (set (concat ?s1))"
  let ?top = "Max (set (concat ?s2))"
  note r = clamp_rows_shape[OF lk]
  note c = clamp_cols_shape[OF ld]
  have l2: "length ?s2 = length s" using r(1) c(1) by simp
  have w2: "\<And>i. i < length s \<Longrightarrow> length (?s2 ! i) = length (s ! i)"
    using r(1,2) c(2) by simp
  have v1: "\<And>i j. i < length s \<Longrightarrow> j < length (s ! i) \<Longrightarrow>
              ?s1 ! i ! j = (if mask_kp ! i then s ! i ! j else ?low)"
    using r(3) by simp
  have v2: "\<And>i j. i < length s \<Longrightarrow> j < length (s ! i) \<Longrightarrow>
              ?s2 ! i ! j = (if mask_dv ! j then ?s1 ! i ! j else ?lowc)"
  proof -
    fix i j assume ij: "i < length s" "j < length (s ! i)"
    have "i < length ?s1" using ij(1) r(1) by simp
    moreover have "j < length (?s1 ! i)" using ij r(2) by simp
    ultimately show "?s2 ! i ! j = (if mask_dv ! j then ?s1 ! i ! j else ?lowc)"
      by (rule c(3))
  qed
  have ne1: "concat ?s1 \<noteq> []"
    using concat_nonempty_shape[OF ne r(1)] r(2) by simp
  have b1: "\<And>i j. i < length s \<Longrightarrow> j < length (s ! i) \<Longrightarrow> ?low \<le> ?s1 ! i ! j"
  proof -
    fix i j assume ij: "i < length s" "j < length (s ! i)"
    have "?low \<le> s ! i ! j" using ij by (rule Min_concat_le)
    then show "?low \<le> ?s1 ! i ! j" unfolding v1[OF ij] by simp
  qed
  have mn: "?low \<le> ?lowc"
  proof (rule Min_concat_ge[OF ne1])
    show "\<forall>i < length ?s1. \<forall>j < length (?s1 ! i). ?low \<le> ?s1 ! i ! j"
      using b1 r(1,2) by simp
  qed
  have mn1: "\<And>i j. i < length s \<Longrightarrow> j < length (s ! i) \<Longrightarrow> ?lowc \<le> ?s1 ! i ! j"
  proof -
    fix i j assume ij: "i < length s" "j < length (s ! i)"
    have "i < length ?s1" using ij(1) r(1) by simp
    moreover have "j < length (?s1 ! i)" using ij r(2) by simp
    ultimately show "?lowc \<le> ?s1 ! i ! j" by (rule Min_concat_le)
  qed
  have b2: "\<And>i j. i < length s \<Longrightarrow> j < length (s ! i) \<Longrightarrow> ?low \<le> ?s2 ! i ! j"
  proof -
    fix i j assume ij: "i < length s" "j < length (s ! i)"
    show "?low \<le> ?s2 ! i ! j"
      unfolding v2[OF ij] using b1[OF ij] mn by simp
  qed
  have b2': "\<And>i j. i < length s \<Longrightarrow> j < length (s ! i) \<Longrightarrow> ?lowc \<le> ?s2 ! i ! j"
  proof -
    fix i j assume ij: "i < length s" "j < length (s ! i)"
    show "?lowc \<le> ?s2 ! i ! j"
      unfolding v2[OF ij] using mn1[OF ij] by simp
  qed
  have u2: "\<And>i j. i < length s \<Longrightarrow> j < length (s ! i) \<Longrightarrow> ?s2 ! i ! j \<le> ?top"
  proof -
    fix i j assume ij: "i < length s" "j < length (s ! i)"
    have "i < length ?s2" using ij(1) l2 by simp
    moreover have "j < length (?s2 ! i)" using ij w2 by simp
    ultimately show "?s2 ! i ! j \<le> ?top" by (rule Max_concat_ge)
  qed
  have "(indh, indv) \<in> set (argwhere_max ?s2)" using hit by simp
  then have h0: "indh < length ?s2 \<and> indv < length (?s2 ! indh) \<and> ?s2 ! indh ! indv = ?top"
    by (rule iffD1[OF argwhere_max_set])
  then have h1: "indh < length s" and h3: "?s2 ! indh ! indv = ?top"
    using l2 by simp_all
  have h2: "indv < length (s ! indh)"
    using h0 w2[OF h1] by simp
  note h = h1 h2 h3
  have only: "\<And>i j. i < length s \<Longrightarrow> j < length (s ! i) \<Longrightarrow> ?s2 ! i ! j = ?top
                \<Longrightarrow> (i, j) = (indh, indv)"
  proof -
    fix i j assume a: "i < length s" "j < length (s ! i)" "?s2 ! i ! j = ?top"
    have "i < length ?s2 \<and> j < length (?s2 ! i) \<and> ?s2 ! i ! j = ?top"
      using a l2 w2 by simp
    then have "(i, j) \<in> set (argwhere_max ?s2)"
      by (rule iffD2[OF argwhere_max_set])
    then show "(i, j) = (indh, indv)" using hit by simp
  qed
  have "mask_kp ! indh \<and> mask_dv ! indv"
  proof (rule ccontr)
    assume out: "\<not> (mask_kp ! indh \<and> mask_dv ! indv)"
    have low: "\<And>i j. i < length s \<Longrightarrow> j < length (s ! i) \<Longrightarrow> ?top \<le> ?s2 ! i ! j"
    proof -
      fix i j assume ij: "i < length s" "j < length (s ! i)"
      show "?top \<le> ?s2 ! i ! j"
      proof (cases "mask_dv ! indv")
        case False
        then have "?top = ?lowc" using v2[OF h(1,2)] h(3) by (simp del: set_concat)
        then show ?thesis using b2'[OF ij] by simp
      next
        case True
        with out have "\<not> mask_kp ! indh" by simp
        then have "?top = ?low" using v2[OF h(1,2)] v1[OF h(1,2)] h(3) True
          by (simp del: set_concat)
        then show ?thesis using b2[OF ij] by simp
      qed
    qed
    have all: "\<And>i j. i < length s \<Longrightarrow> j < length (s ! i) \<Longrightarrow> (i, j) = (indh, indv)"
    proof -
      fix i j assume ij: "i < length s" "j < length (s ! i)"
      have "?s2 ! i ! j = ?top" using low[OF ij] u2[OF ij] by (rule antisym[rotated])
      then show "(i, j) = (indh, indv)" using only[OF ij] by simp
    qed
    from two obtain i j i' j' where p: "i < length s" "j < length (s ! i)"
        and p': "i' < length s" "j' < length (s ! i')" and d: "(i, j) \<noteq> (i', j')"
      by blast
    have "(i, j) = (indh, indv)" using p by (rule all)
    moreover have "(i', j') = (indh, indv)" using p' by (rule all)
    ultimately show False using d by simp
  qed
  with h show ?thesis by simp
qed

lemma kpv_peak_axes:
  "KpV_kpVec kpv_peak = [80, 100, 120]" "KpV_vrestVec kpv_peak = [-80, 0, 80]"
  by (simp_all add: kpv_peak_def)

lemma snr_at_peak_example:
  "snr_at_peak kpv_peak
     = Inr (kpv_peak\<lparr> KpV_indh := Some 1, KpV_indv := Some 1, KpV_peak_pos := Some (0, 100),
                       KpV_peak_snr := Some 3 \<rparr>)"
  by (simp add: snr_at_peak_def snr_peak kpv_peak_axes Let_def clamp_rows_def clamp_cols_def
        argwhere_max_def mean_def)

lemma KpV_init_grid:
  "KpV_init [\<lparr>Kp = 100, frame = None\<rparr>] ccf_example 0 None 50 80 None
     = Inr ([\<lparr>Kp = 100, frame = None\<rparr>, \<lparr>Kp = 100, frame = Some ''telluric''\<rparr>], kpv_grid)"
  by (simp add: KpV_init_def deepcopy_def arange_def truthy_or_def kpv_grid_def ccf_example_def
        upt_rec)

lemma snr_grid:
  "snr (kpv_grid\<lparr>KpV_ccf_map := Some [[2, 0, 0, 6, 2], [6, 18, 0, 2, 6]]\<rparr>)
     = Inr [[-1, -2, -2, 1, -1], [1, 7, -2, -1, 1]]"
proof -
  have "background (kpv_grid\<lparr>KpV_ccf_map := Some [[2, 0, 0, 6, 2], [6, 18, 0, 2, 6]]\<rparr>)
          = Inr [2, 6, 2, 6, 2, 6]"
    by (simp add: background_def kpv_grid_def noise_region_def select_def)
  moreover have "std [2, 6, 2, 6, 2, 6] = Some 2"
    by (simp add: std_def var_def mean_def)
  moreover have "median [2, 6, 2, 6, 2, 6] = Some 4"
    by (simp add: median_def)
  ultimately show ?thesis
    by (simp add: snr_def)
qed

lemma snr_tie: "snr kpv_tie = Inr [[-1, 3, 3, 1]]"
proof -
  have "background kpv_tie = Inr [2, 6]"
    by (simp add: background_def kpv_tie_def noise_region_def select_def)
  moreover have "std [2, 6] = Some 2"
    by (simp add: std_def var_def mean_def)
  moreover have "median [2, 6] = Some 4"
    by (simp add: median_def)
  moreover have "KpV_ccf_map kpv_tie = Some [[2, 10, 10, 6]]"
    by (simp add: kpv_tie_def)
  ultimately show ?thesis
    by (simp add: snr_def)
qed

lemma snr_at_peak_tie: "snr_at_peak kpv_tie = Inl TypeError"
proof -
  have ax: "KpV_kpVec kpv_tie = [100]" "KpV_vrestVec kpv_tie = [-80, -1, 1, 80]"
    by (simp_all add: kpv_tie_def)
  show ?thesis
    by (simp add: snr_at_peak_def snr_tie ax Let_def clamp_rows_def clamp_cols_def
          argwhere_max_def mean_def)
qed

lemma collect_map:
  "collect (map f xs) = Inr ys
     \<longleftrightarrow> (\<forall>x \<in> set xs. \<exists>y. f x = Inr y) \<and> ys = map (\<lambda>x. projr (f x)) xs"
proof (induction xs arbitrary: ys)
  case Nil
  then show ?case by auto
next
  case (Cons x xs)
  show ?case
  proof (cases "f x")
    case (Inl e)
    then show ?thesis by auto
  next
    case (Inr y)
    show ?thesis
    proof (cases "collect (map f xs)")
      case (Inl e)
      with Cons.IH[of "map (\<lambda>x. projr (f x)) xs"] have "\<not> (\<forall>x \<in> set xs. \<exists>y. f x = Inr y)"
        by auto
      with Inl Inr show ?thesis by auto
    next
      case r: (Inr zs)
      with Cons.IH[of zs] have "(\<forall>x \<in> set xs. \<exists>y. f x = Inr y)" "zs = map (\<lambda>x. projr (f x)) xs"
        by auto
      with r Inr show ?thesis by auto
    qed
  qed
qed

lemma merge_kpvs_iff:
  "merge_kpvs ks = Inr r \<longleftrightarrow>
     ks \<noteq> []
   \<and> (\<forall>k \<in> set ks. \<exists>b. baseline k = Inr b)
   \<and> (\<forall>k \<in> set ks. map length (the (KpV_ccf_map k)) = map length (the (KpV_ccf_map (hd ks))))
   \<and> (concat (the (KpV_ccf_map (hd ks))) = [] \<or> (\<forall>k \<in> set ks. projr (baseline k) \<noteq> None))
   \<and> r = (hd ks)\<lparr>KpV_ccf_map := Some (sum_maps (map subtracted ks))\<rparr>"
proof (cases ks)
  case Nil
  then show ?thesis by (simp add: merge_kpvs_def)
next
  case (Cons k0 rest)
  have z: "map (\<lambda>(m, b). map (map (\<lambda>x. x - the b)) m)
             (zip (map (\<lambda>k. the (KpV_ccf_map k)) ks) (map (\<lambda>x. projr (baseline x)) ks))
           = map subtracted ks"
    by (simp add: zip_map_map zip_same_conv_map subtracted_def)
  show ?thesis
  proof (cases "collect (map baseline ks)")
    case (Inl e)
    then have "\<not> (\<forall>k \<in> set ks. \<exists>b. baseline k = Inr b)"
      using collect_map[of baseline ks "map (\<lambda>x. projr (baseline x)) ks"] by auto
    with Inl Cons show ?thesis by (auto simp: merge_kpvs_def)
  next
    case (Inr bs)
    then have b: "\<forall>k \<in> set ks. \<exists>b. baseline k = Inr b" "bs = map (\<lambda>x. projr (baseline x)) ks"
      using collect_map[of baseline ks bs] by auto
    have "merge_kpvs ks =
       (if \<exists>m \<in> set (map (\<lambda>k. the (KpV_ccf_map k)) ks). map length m \<noteq> map length (the (KpV_ccf_map (hd ks)))
        then Inl ValueError
        else if concat (the (KpV_ccf_map (hd ks))) \<noteq> [] \<and> None \<in> set bs then Inl NonFinite
        else Inr ((hd ks)\<lparr>KpV_ccf_map := Some (sum_maps (map subtracted ks))\<rparr>))"
      using Cons Inr z b(2) by (simp add: merge_kpvs_def Let_def)
    moreover have "None \<in> set bs \<longleftrightarrow> \<not> (\<forall>k \<in> set ks. projr (baseline k) \<noteq> None)"
      using b(2) by force
    ultimately show ?thesis using b(1) Cons by auto
  qed
qed

lemma sum_maps_nonempty:
  "ms \<noteq> [] \<Longrightarrow>
     sum_maps ms = map (\<lambda>i. map (\<lambda>j. sum_list (map (\<lambda>a. a ! i ! j) ms)) [0 ..< length (hd ms ! i)])
                     [0 ..< length (hd ms)]"
  by (cases ms) (simp_all add: sum_maps_def)

lemma sum_list_map_mset:
  fixes f :: "'a \<Rightarrow> real"
  assumes "mset xs = mset ys"
  shows "sum_list (map f xs) = sum_list (map f ys)"
proof -
  have "mset (map f xs) = mset (map f ys)"
    using assms by (metis mset_map)
  then have "sum_mset (mset (map f xs)) = sum_mset (mset (map f ys))"
    by (rule arg_cong)
  then show ?thesis
    by (simp only: sum_mset_sum_list)
qed

lemma subtracted_shape: "map length (subtracted k) = map length (the (KpV_ccf_map k))"
  by (simp add: subtracted_def)

lemma concat_empty_shape:
  assumes "map length m = map length m'"
  shows "concat m = [] \<longleftrightarrow> concat m' = []"
proof -
  have "length (concat m) = length (concat m')"
    using assms by (simp add: length_concat)
  then show ?thesis by (metis length_0_conv)
qed

lemma sum_maps_subtracted_perm:
  assumes ne: "ks \<noteq> []"
      and p: "mset ks' = mset ks"
      and sh: "\<forall>k \<in> set ks. map length (the (KpV_ccf_map k)) = map length (the (KpV_ccf_map (hd ks)))"
  shows "sum_maps (map subtracted ks') = sum_maps (map subtracted ks)"
proof -
  have ne': "ks' \<noteq> []" using ne p by auto
  have "hd ks' \<in> set ks" using ne' p by (metis hd_in_set mset_eq_setD)
  then have "map length (the (KpV_ccf_map (hd ks'))) = map length (the (KpV_ccf_map (hd ks)))"
    using sh by blast
  then have h: "map length (subtracted (hd ks')) = map length (subtracted (hd ks))"
    by (simp add: subtracted_shape)
  then have l: "length (subtracted (hd ks')) = length (subtracted (hd ks))"
    by (metis length_map)
  have r: "\<And>i. i < length (subtracted (hd ks)) \<Longrightarrow>
             length (subtracted (hd ks') ! i) = length (subtracted (hd ks) ! i)"
    using h l by (metis nth_map)
  have s: "\<And>i j. sum_list (map (\<lambda>a. a ! i ! j) (map subtracted ks'))
                 = sum_list (map (\<lambda>a. a ! i ! j) (map subtracted ks))"
  proof -
    fix i j
    have "sum_list (map (\<lambda>k. subtracted k ! i ! j) ks') = sum_list (map (\<lambda>k. subtracted k ! i ! j) ks)"
      using p by (rule sum_list_map_mset)
    then show "sum_list (map (\<lambda>a. a ! i ! j) (map subtracted ks'))
                 = sum_list (map (\<lambda>a. a ! i ! j) (map subtracted ks))"
      by (simp add: comp_def)
  qed
  have hd': "hd (map subtracted ks') = subtracted (hd ks')" using ne' by (simp add: hd_map)
  have hd0: "hd (map subtracted ks) = subtracted (hd ks)" using ne by (simp add: hd_map)
  have e': "sum_maps (map subtracted ks')
              = map (\<lambda>i. map (\<lambda>j. sum_list (map (\<lambda>a. a ! i ! j) (map subtracted ks')))
                            [0 ..< length (subtracted (hd ks') ! i)])
                  [0 ..< length (subtracted (hd ks'))]"
    using sum_maps_nonempty[of "map subtracted ks'"] ne' hd' by simp
  have e: "sum_maps (map subtracted ks)
              = map (\<lambda>i. map (\<lambda>j. sum_list (map (\<lambda>a. a ! i ! j) (map subtracted ks)))
                            [0 ..< length (subtracted (hd ks) ! i)])
                  [0 ..< length (subtracted (hd ks))]"
    using sum_maps_nonempty[of "map subtracted ks"] ne hd0 by simp
  have "map (\<lambda>i. map (\<lambda>j. sum_list (map (\<lambda>a. a ! i ! j) (map subtracted ks')))
                 [0 ..< length (subtracted (hd ks') ! i)])
          [0 ..< length (subtracted (hd ks'))]
        = map (\<lambda>i. map (\<lambda>j. sum_list (map (\<lambda>a. a ! i ! j) (map subtracted ks)))
                   [0 ..< length (subtracted (hd ks) ! i)])
            [0 ..< length (subtracted (hd ks))]"
  proof (rule map_cong)
    show "[0 ..< length (subtracted (hd ks'))] = [0 ..< length (subtracted (hd ks))]"
      using l by simp
  next
    fix i assume "i \<in> set [0 ..< length (subtracted (hd ks))]"
    then have "i < length (subtracted (hd ks))" by simp
    then have "length (subtracted (hd ks') ! i) = length (subtracted (hd ks) ! i)"
      by (rule r)
    then show "map (\<lambda>j. sum_list (map (\<lambda>a. a ! i ! j) (map subtracted ks')))
                 [0 ..< length (subtracted (hd ks') ! i)]
               = map (\<lambda>j. sum_list (map (\<lambda>a. a ! i ! j) (map subtracted ks)))
                   [0 ..< length (subtracted (hd ks) ! i)]"
      using s by simp
  qed
  then show ?thesis
    unfolding e e' .
qed

lemma baseline_bg:
  "baseline (kpv_bg [[x1, x2, x3]]) = Inr (median [x1, x2, x3])"
  by (simp add: baseline_def background_def kpv_bg_def noise_region_def select_def)

lemma merge_bg_pair:
  assumes "median [a1, a2, a3] = Some a" "median [b1, b2, b3] = Some b"
  shows "merge_kpvs [kpv_bg [[a1, a2, a3]], kpv_bg [[b1, b2, b3]]]
           = Inr (kpv_bg [[a1 - a + (b1 - b), a2 - a + (b2 - b), a3 - a + (b3 - b)]])"
  using assms
  by (simp add: merge_kpvs_def baseline_bg) (simp add: kpv_bg_def sum_maps_def)

lemma merge_bg_triple:
  assumes "median [a1, a2, a3] = Some a" "median [b1, b2, b3] = Some b" "median [d1, d2, d3] = Some d"
  shows "merge_kpvs [kpv_bg [[a1, a2, a3]], kpv_bg [[b1, b2, b3]], kpv_bg [[d1, d2, d3]]]
           = Inr (kpv_bg [[a1 - a + (b1 - b + (d1 - d)), a2 - a + (b2 - b + (d2 - d)),
                           a3 - a + (b3 - b + (d3 - d))]])"
  using assms
  by (simp add: merge_kpvs_def baseline_bg) (simp add: kpv_bg_def sum_maps_def)

lemma medians:
  "median [0, 0, 3] = Some 0" "median [0, 3, 0] = Some 0" "median [0, 0, 0] = Some 0"
  "median [0, 3, 3] = Some 3"
  by (simp_all add: median_def)

lemma run_loop_store:
  "run_loop RV ccf vs frames q h kps = Inr (h', rows) \<Longrightarrow>
     length h' = length h \<and> (\<forall>a. a \<noteq> q \<longrightarrow> h' ! a = h ! a)
     \<and> (q < length h \<longrightarrow> kps \<noteq> [] \<longrightarrow> Kp (h' ! q) = last kps)
     \<and> length rows = length kps"
proof (induction kps arbitrary: h h' rows)
  case Nil
  then show ?case by simp
next
  case (Cons kp kps)
  let ?h1 = "h[q := (h ! q)\<lparr>Kp := kp\<rparr>]"
  from Cons.prems obtain row rows' where
      rec: "run_loop RV ccf vs frames q ?h1 kps = Inr (h', rows')" and rows: "rows = row # rows'"
    by (auto simp: Let_def split: sum.splits)
  note ih = Cons.IH[OF rec]
  have l: "length h' = length h" using ih by simp
  have o: "\<forall>a. a \<noteq> q \<longrightarrow> h' ! a = h ! a" using ih by simp
  have k: "q < length h \<longrightarrow> Kp (h' ! q) = last (kp # kps)"
  proof (cases kps)
    case Nil
    with rec have "h' = ?h1" by simp
    then show ?thesis using Nil by simp
  next
    case (Cons a list)
    then show ?thesis using ih by simp
  qed
  show ?case using l o k rows ih by simp
qed

lemma KpV_init_store:
  assumes "KpV_init h ccf p deltaRV kp_radius vrest_max bkg = Inr (h1, self)"
  shows "p < length h \<and> KpV_planet self = length h \<and> length h1 = Suc (length h)
       \<and> (\<forall>a < length h. h1 ! a = h ! a) \<and> Kp (h1 ! length h) = Kp (h ! p)"
  using assms
  by (auto simp: KpV_init_def deepcopy_def Let_def nth_append
           split: if_splits option.splits sum.splits)

lemma KpV_init_run_example:
  "KpV_init [\<lparr>Kp = 100, frame = None\<rparr>] ccf_example 0 None 75 50 None
     = Inr ([\<lparr>Kp = 100, frame = None\<rparr>, \<lparr>Kp = 100, frame = Some ''telluric''\<rparr>],
            kpv_run_example)"
  by (simp add: KpV_init_def deepcopy_def arange_def truthy_or_def kpv_run_example_def
        ccf_example_def upt_rec)

lemma interp_example:
  "interp1d (CCF_rv ccf_example) (CCF_flux ccf_example ! 0)
     = Inr [(-100, 0), (-50, 1), (0, 4), (50, 1), (100, 0)]"
  by (simp add: interp1d_def ccf_example_def)

lemma run_example:
  "run (\<lambda>p. [Kp p / 5]) (\<lambda>p. [False])
       [\<lparr>Kp = 100, frame = None\<rparr>, \<lparr>Kp = 100, frame = Some ''telluric''\<rparr>] kpv_run_example True
     = Inr ([\<lparr>Kp = 100, frame = None\<rparr>, \<lparr>Kp = 125, frame = Some ''telluric''\<rparr>],
            kpv_run_example
              \<lparr>KpV_ccf_map := Some [[13/10, 37/10, 9/10], [19/10, 31/10, 7/10], [5/2, 5/2, 1/2]]\<rparr>)"
proof -
  have f: "KpV_ccf kpv_run_example = ccf_example" "KpV_planet kpv_run_example = 1"
      "KpV_kpVec kpv_run_example = [25, 75, 125]" "KpV_vrestVec kpv_run_example = [-50, 0, 50]"
    by (simp_all add: kpv_run_example_def)
  have l: "length (CCF_flux ccf_example) = 1"
    by (simp add: ccf_example_def)
  show ?thesis
    by (simp add: run_def f l interp_example interp_call_def Let_def)
qed

lemma length_select_le: "length (select keep xs) \<le> length (filter id keep)"
  unfolding select_def
  by (induction keep arbitrary: xs) (auto simp: zip_Cons1 split: list.splits)

lemma clipped_example: "clipped align_example (Suc 0) = Align_flux align_example"
  by (simp add: clipped_def clip_def align_example_def)

lemma valid_example: "valid align_example (Suc 0) = [True, False, False, True, False]"
  by (simp add: valid_def clipped_example) (simp add: align_example_def)

lemma get_shift_flat:
  "get_shift interp_at align_flat 1 = Inr (align_flat\<lparr>Align_ccf := [[Some 0], [Some 1]]\<rparr>)"
proof -
  have c: "clipped align_flat (Suc 0) = Align_flux align_flat"
    by (simp add: clipped_def clip_def align_flat_def var_def mean_def)
  have v: "valid align_flat (Suc 0) = [True, True, True, True]"
    by (simp add: valid_def c) (simp add: align_flat_def)
  show ?thesis
    by (simp add: get_shift_def v c Let_def splrep_def select_def)
       (simp add: align_flat_def xcorr_def)
qed

section \<open>Centring of the flux\<close>

text \<open>
  C1 (as amended). The flux that enters the dot product is centred on one mean, the mean
  of all usable entries of all frames: row \<open>i\<close> of \<open>f\<close> is row \<open>i\<close> of the usable
  flux minus \<open>mean (concat flux)\<close>.
\<close>

theorem flux_centred_on_global_mean:
  assumes "usable dco = Inr (wave, flux)"
      and "operands crop spl self dco = Inr (f, g)"
  shows "length f = length flux
       \<and> (\<forall>i < length flux. length (flux ! i) = length wave
             \<and> f ! i = map (\<lambda>x. x - mean (concat flux)) (flux ! i))"
  using operands_Inr(1)[OF assms(2,1)] usable_shape[OF assms(1)]
  by (simp add: center_flux_def)

theorem flux_centred_on_global_mean_witness:
  "length [[-3, -1, -2], [1, 3, 2 :: real]] = length [[1, 3, 2], [5, 7, 6 :: real]]
   \<and> [[-3, -1, -2], [1, 3, 2]] ! 1
       = map (\<lambda>x. x - mean (concat [[1, 3, 2], [5, 7, 6]])) ([[1, 3, 2], [5, 7, 6]] ! 1)"
proof -
  note t = flux_centred_on_global_mean [OF usable_example operands_example]
  have "(1::nat) < length [[1, 3, 2], [5, 7, 6 :: real]]"
    by simp
  with t show ?thesis
    by blast
qed

text \<open>
  C1 (as stated) fails: two frames with the usable flux \<open>[1, 3, 2]\<close> and \<open>[5, 7, 6]\<close>
  have the global mean \<open>4\<close> and the frame means \<open>2\<close> and \<open>6\<close>; the code produces
  \<open>[-3, -1, -2]\<close> and \<open>[1, 3, 2]\<close>, the centring per frame would give \<open>[-1, 1, 0]\<close>
  twice.
\<close>

theorem flux_not_centred_per_frame:
  "usable dco_example = Inr ([1, 2, 5], [[1, 3, 2], [5, 7, 6]])
   \<and> operands crop_window interp_at ccf_zero dco_example
       = Inr ([[-3, -1, -2], [1, 3, 2]], [[-1, 1/2, -1]])
   \<and> spec_center_per_frame [[1, 3, 2], [5, 7, 6]] = [[-1, 1, 0], [-1, 1, 0]]
   \<and> [[-3, -1, -2], [1, 3, 2]] \<noteq> [[-1, 1, 0], [-1, 1, 0 :: real]]"
  by (simp add: usable_example operands_example spec_center_per_frame_def mean_def)

section \<open>The mode \<^verbatim>\<open>'ones'\<close> does not read the flux errors\<close>

text \<open>
  C4. With \<^verbatim>\<open>noise='ones'\<close> two runs whose inputs differ only in the flux-error array
  (present or not, whatever it holds) return the same outcome: the same CCF map or the
  same exception.
\<close>

theorem ones_ignores_flux_err:
  "cross_correlation crop spl self (dco\<lparr>dco_flux_err := e1\<rparr>) Noise_ones
     = cross_correlation crop spl self (dco\<lparr>dco_flux_err := e2\<rparr>) Noise_ones"
  by (simp add: cross_correlation_def operands_flux_err noise2_ones cong: sum.case_cong prod.case_cong)

theorem ones_ignores_flux_err_witness:
  "cross_correlation crop_window interp_at ccf_zero
      (dco_example\<lparr>dco_flux_err := Some [[1, 1, 1, 1], [1, 2, 1, 3]]\<rparr>) Noise_ones
     = Inr [[9/2], [-3/2]]"
  using ones_ignores_flux_err
          [where crop = crop_window and spl = interp_at and self = ccf_zero
             and dco = dco_example and ?e1.0 = "Some [[1, 1, 1, 1], [1, 2, 1, 3]]"
             and ?e2.0 = "dco_flux_err dco_example"]
        cc_ones_example
  by simp

section \<open>Trial velocity zero\<close>

text \<open>
  C5. For a trial velocity \<open>0\<close> the factor \<open>beta\<close> is \<open>1\<close>, and the row of the
  shifted template, at a wavelength of the data that is a sample point of the cropped
  template, is the centred flux of the template at that sample: its flux minus the mean
  of the cropped template. The samples of the cropped template are strictly increasing
  in wavelength; in spline mode the spline passes through its samples.
\<close>

theorem zero_velocity_row_reproduces_template:
  assumes u: "usable dco = Inr (wave, flux)"
      and o: "operands crop spl self dco = Inr (f, g)"
      and t0: "t0 = crop (Min (set wave)) (Max (set wave)) 0.40 (CCF_template self)"
      and srt: "sorted_wrt (<) (temp_wlt t0)"
      and spl: "CCF_spline self \<longrightarrow> interpolates spl"
      and k: "k < length (CCF_rv self)" "CCF_rv self ! k = 0"
      and j: "j < length wave"
      and i: "i < length (temp_wlt t0)" "wave ! j = temp_wlt t0 ! i"
  shows "g ! k ! j = temp_flux t0 ! i - mean (temp_flux t0)"
proof -
  let ?temp = "center_template t0"
  have w: "temp_wlt ?temp = temp_wlt t0"
    by (simp add: center_template_def)
  have g: "shifted_template spl (CCF_spline self) ?temp (CCF_rv self) wave = Inr g"
    using operands_Inr(3)[OF o u] t0 by simp
  from shifted_template_zero[OF g _ spl k j, of i] srt i w
  have r: "g ! k ! j = temp_flux ?temp ! i" and l: "length (temp_wlt ?temp) = length (temp_flux ?temp)"
    by simp_all
  from l w i(1) have "i < length (temp_flux t0)"
    by (simp add: center_template_def)
  then have "temp_flux ?temp ! i = temp_flux t0 ! i - mean (temp_flux t0)"
    by (simp add: center_template_def)
  with r show ?thesis by simp
qed

theorem zero_velocity_row_reproduces_template_witness:
  "operands crop_window interp_at ccf_spline_example dco_example
     = Inr ([[-3, -1, -2], [1, 3, 2]], [[-1, 2, 0]])
   \<and> interpolates interp_at
   \<and> [[-1, 2, 0 :: real]] ! 0 ! 1 = [0, 3, 0, 1] ! 1 - mean [0, 3, 0, 1]"
proof -
  have s: "CCF_spline ccf_spline_example \<longrightarrow> interpolates interp_at"
    by (simp add: interpolates_interp_at)
  have t: "\<lparr>temp_wlt = [1, 2, 3, 5], temp_flux = [0, 3, 0, 1]\<rparr>
             = crop_window (Min (set [1, 2, 5])) (Max (set [1, 2, 5])) 0.40 (CCF_template ccf_spline_example)"
    using crop_spline_example by simp
  have "[[-1, 2, 0 :: real]] ! 0 ! 1
          = temp_flux \<lparr>temp_wlt = [1, 2, 3, 5], temp_flux = [0, 3, 0, 1]\<rparr> ! 1
            - mean (temp_flux \<lparr>temp_wlt = [1, 2, 3, 5], temp_flux = [0, 3, 0, 1]\<rparr>)"
    by (rule zero_velocity_row_reproduces_template
               [OF usable_example operands_spline_example t _ s, of 0 1 1])
       (simp_all add: ccf_spline_example_def)
  then show ?thesis
    using operands_spline_example interpolates_interp_at by simp
qed

section \<open>Centring of the template\<close>

text \<open>
  C7 (as amended). The template is centred once, as a 1D array, before it is shifted:
  the flux of the cropped template minus its mean sums to zero, and the matrix \<open>g\<close> of
  the dot product is the shifted, centred 1D template. The rows of \<open>g\<close> are not
  centred again.
\<close>

theorem template_centred_before_shifting:
  assumes u: "usable dco = Inr (wave, flux)"
      and o: "operands crop spl self dco = Inr (f, g)"
      and t0: "t0 = crop (Min (set wave)) (Max (set wave)) 0.40 (CCF_template self)"
  shows "sum_list (temp_flux (center_template t0)) = 0
       \<and> shifted_template spl (CCF_spline self) (center_template t0) (CCF_rv self) wave = Inr g"
  using operands_Inr(3)[OF o u] t0
  by (simp add: center_template_def sum_centered)

theorem template_centred_before_shifting_witness:
  "sum_list (temp_flux (center_template (crop_window 1 5 0.40 (CCF_template ccf_zero)))) = 0
   \<and> shifted_template interp_at (CCF_spline ccf_zero)
        (center_template (crop_window 1 5 0.40 (CCF_template ccf_zero))) (CCF_rv ccf_zero) [1, 2, 5]
       = Inr [[-1, 1/2, -1]]"
  using template_centred_before_shifting [OF usable_example operands_example, of "crop_window 1 5 0.40 (CCF_template ccf_zero)"]
  by simp

text \<open>
  C7 (as stated) fails: for the template \<open>[0, 3, 0]\<close> at the wavelengths \<open>1, 3, 5\<close>
  and the data wavelengths \<open>1, 2, 5\<close> the row of \<open>g\<close> for the velocity \<open>0\<close> is
  \<open>[-1, 1/2, -1]\<close>, of mean \<open>-1/2\<close>. The centring of \<^verbatim>\<open>__prepare_template\<close>
  removes the means of the columns, which leaves rows of non-zero mean as well.
\<close>

theorem template_rows_not_centred:
  "operands crop_window interp_at ccf_zero dco_example
     = Inr ([[-3, -1, -2], [1, 3, 2]], [[-1, 1/2, -1]])
   \<and> mean [-1, 1/2, -1] = -1/2
   \<and> center_columns [[Some 1, Some 2], [Some 3, Some 6]]
       = [[Some (-1), Some (-2)], [Some 1, Some 2]]
   \<and> mean [-1, -2] = -3/2"
  by (simp add: operands_example mean_def center_columns_def nanmean_def)

section \<open>The SNR surface and its background\<close>

text \<open>
  C2. Let \<open>b\<close> be the entries of \<^verbatim>\<open>ccf_map\<close> in the columns with
  \<open>\<bar>vrestVec\<bar> > bkg\<close>, row after row. For a map whose rows have the length of
  \<open>vrestVec\<close>, the noise is the standard deviation of \<open>b\<close> (the square root of the mean
  squared deviation from the mean of \<open>b\<close>), the baseline is the median of \<open>b\<close> (the
  middle entry of the sorted \<open>b\<close>, or the mean of the two middle entries), both NaN for
  an empty \<open>b\<close>, and the surface is \<open>(ccf_map - baseline) / noise\<close>, non-finite when
  \<open>b\<close> is empty or the noise is zero. Two maps of one shape that agree on every column
  with \<open>\<bar>vrestVec\<bar> > bkg\<close> have the same noise and the same baseline, whatever the
  other columns hold.
\<close>

theorem snr_uses_background_only:
  assumes m1: "KpV_ccf_map self = Some m1"
      and b: "b = concat (map (\<lambda>row. map ((!) row)
                                 (filter (\<lambda>j. \<bar>KpV_vrestVec self ! j\<bar> > KpV_bkg self)
                                    [0 ..< length row])) m1)"
      and sd: "sd = sqrt (sum_list (map (\<lambda>x. (x - sum_list b / real (length b))\<^sup>2) b)
                           / real (length b))"
      and med: "med = (if odd (length b) then sort b ! (length b div 2)
                        else (sort b ! (length b div 2 - 1) + sort b ! (length b div 2)) / 2)"
      and l: "length m2 = length m1"
      and sh: "\<forall>i < length m1. length (m2 ! i) = length (m1 ! i)"
      and ag: "\<forall>i < length m1. \<forall>j < length (m1 ! i).
                 j < length (KpV_vrestVec self) \<and> \<bar>KpV_vrestVec self ! j\<bar> > KpV_bkg self
                   \<longrightarrow> m2 ! i ! j = m1 ! i ! j"
  shows "((\<forall>row \<in> set m1. length row = length (KpV_vrestVec self)) \<longrightarrow>
            noise self = Inr (if b = [] then None else Some sd)
          \<and> baseline self = Inr (if b = [] then None else Some med)
          \<and> snr self = (if concat m1 = [] then Inr m1
                         else if b = [] \<or> sd = 0 then Inl NonFinite
                         else Inr (map (map (\<lambda>x. (x - med) / sd)) m1)))
       \<and> noise (self\<lparr>KpV_ccf_map := Some m2\<rparr>) = noise self
       \<and> baseline (self\<lparr>KpV_ccf_map := Some m2\<rparr>) = baseline self"
proof -
  have same: "background (self\<lparr>KpV_ccf_map := Some m2\<rparr>) = background self"
    using m1 l sh ag by (rule background_agree)
  have ni: "noise (self\<lparr>KpV_ccf_map := Some m2\<rparr>) = noise self"
           "baseline (self\<lparr>KpV_ccf_map := Some m2\<rparr>) = baseline self"
    using same by (simp_all add: noise_def baseline_def)
  have ch: "noise self = Inr (if b = [] then None else Some sd)
          \<and> baseline self = Inr (if b = [] then None else Some med)
          \<and> snr self = (if concat m1 = [] then Inr m1
                         else if b = [] \<or> sd = 0 then Inl NonFinite
                         else Inr (map (map (\<lambda>x. (x - med) / sd)) m1))"
    if fit: "\<forall>row \<in> set m1. length row = length (KpV_vrestVec self)"
  proof -
    have bg: "background self = Inr b"
      unfolding b using m1 fit by (rule background_entries)
    have s: "std b = (if b = [] then None else Some sd)"
      by (simp add: std_def var_def mean_def sd)
    have md: "median b = (if b = [] then None else Some med)"
      by (simp add: median_def Let_def med)
    have n: "noise self = Inr (if b = [] then None else Some sd)"
      by (simp add: noise_def bg s)
    have bl: "baseline self = Inr (if b = [] then None else Some med)"
      by (simp add: baseline_def bg md)
    have sn: "snr self = (if concat m1 = [] then Inr m1
                         else if b = [] \<or> sd = 0 then Inl NonFinite
                         else Inr (map (map (\<lambda>x. (x - med) / sd)) m1))"
    proof (cases "b = []")
      case True
      then have "std b = None" "median b = None"
        by (simp_all add: std_def median_def)
      then show ?thesis
        using True by (simp add: snr_def bg m1)
    next
      case False
      then have "std b = Some sd" "median b = Some med"
        using s md by simp_all
      then show ?thesis
        using False by (simp add: snr_def bg m1)
    qed
    from n bl sn show ?thesis by blast
  qed
  from ch ni show ?thesis by blast
qed

theorem snr_uses_background_only_witness:
  "noise kpv_peak = Inr (Some 2) \<and> baseline kpv_peak = Inr (Some 4)
   \<and> snr kpv_peak = Inr [[-1, 5, 1], [1, 3, -1], [-1, 2, 1]]
   \<and> noise (kpv_peak\<lparr>KpV_ccf_map := Some [[2, 100, 6], [6, -5, 2], [2, 0, 6]]\<rparr>) = Inr (Some 2)
   \<and> baseline (kpv_peak\<lparr>KpV_ccf_map := Some [[2, 100, 6], [6, -5, 2], [2, 0, 6]]\<rparr>)
       = Inr (Some 4)"
proof -
  let ?m1 = "[[2, 14, 6], [6, 10, 2], [2, 8, 6 :: real]]"
  let ?m2 = "[[2, 100, 6], [6, -5, 2], [2, 0, 6 :: real]]"
  let ?b = "concat (map (\<lambda>row. map ((!) row)
                            (filter (\<lambda>j. \<bar>KpV_vrestVec kpv_peak ! j\<bar> > KpV_bkg kpv_peak)
                               [0 ..< length row])) ?m1)"
  have ag: "\<forall>i < length ?m1. \<forall>j < length (?m1 ! i).
          j < length (KpV_vrestVec kpv_peak) \<and> \<bar>KpV_vrestVec kpv_peak ! j\<bar> > KpV_bkg kpv_peak
            \<longrightarrow> ?m2 ! i ! j = ?m1 ! i ! j"
    by (simp add: kpv_peak_def All_less_Suc)
  have sh: "\<forall>i < length ?m1. length (?m2 ! i) = length (?m1 ! i)"
    by (simp add: All_less_Suc)
  have fit: "\<forall>row \<in> set ?m1. length row = length (KpV_vrestVec kpv_peak)"
    by (simp add: kpv_peak_def)
  have bv: "?b = [2, 6, 6, 2, 2, 6]"
    by (simp add: kpv_peak_def)
  have sd: "sqrt (sum_list (map (\<lambda>x. (x - sum_list [2, 6, 6, 2, 2, 6] / real (length [2, 6, 6, 2, 2, 6 :: real]))\<^sup>2)
                 [2, 6, 6, 2, 2, 6]) / real (length [2, 6, 6, 2, 2, 6 :: real])) = 2"
    by simp
  have srt: "sort [2, 6, 6, 2, 2, 6 :: real] = [2, 2, 2, 6, 6, 6]"
    by simp
  note t = snr_uses_background_only [OF ccf_map_peak refl refl refl _ sh ag, unfolded bv sd]
  have "length ?m2 = length ?m1" by simp
  from t[OF this] fit show ?thesis
    by (simp add: srt)
qed

section \<open>The default peak search\<close>

text \<open>
  C3. The default search is to return a grid point inside the window
  \<open>\<bar>Kp - mean kpVec\<bar> < 10\<close>, \<open>\<bar>Vrest\<bar> < 5\<close> for every computed surface. The code does
  not: \<^verbatim>\<open>int(indh)\<close> raises \<^verbatim>\<open>TypeError\<close> whenever the maximum of the clamped
  surface is not at exactly one position. Two computed surfaces where it raises: on the
  grid that the constructor builds for \<open>dRV = 50\<close> no point is inside the window, every
  entry is clamped to the minimum and every position holds the maximum; on the row
  \<open>[-1, 3, 3, 1]\<close> the two points inside the window tie.
\<close>

theorem default_peak_search_raises:
  "KpV_init [\<lparr>Kp = 100, frame = None\<rparr>] ccf_example 0 None 50 80 None
     = Inr ([\<lparr>Kp = 100, frame = None\<rparr>, \<lparr>Kp = 100, frame = Some ''telluric''\<rparr>], kpv_grid)
   \<and> snr (kpv_grid\<lparr>KpV_ccf_map := Some [[2, 0, 0, 6, 2], [6, 18, 0, 2, 6]]\<rparr>)
       = Inr [[-1, -2, -2, 1, -1], [1, 7, -2, -1, 1]]
   \<and> snr_at_peak (kpv_grid\<lparr>KpV_ccf_map := Some [[2, 0, 0, 6, 2], [6, 18, 0, 2, 6]]\<rparr>)
       = Inl TypeError
   \<and> snr kpv_tie = Inr [[-1, 3, 3, 1]]
   \<and> snr_at_peak kpv_tie = Inl TypeError"
proof -
  have ax: "KpV_kpVec kpv_grid = [50, 100]" "KpV_vrestVec kpv_grid = [-80, -30, 20, 70, 120]"
    by (simp_all add: kpv_grid_def)
  have "snr_at_peak (kpv_grid\<lparr>KpV_ccf_map := Some [[2, 0, 0, 6, 2], [6, 18, 0, 2, 6]]\<rparr>)
          = Inl TypeError"
    by (simp add: snr_at_peak_def snr_grid ax Let_def clamp_rows_def clamp_cols_def
          argwhere_max_def mean_def)
  then show ?thesis
    using KpV_init_grid snr_grid snr_tie snr_at_peak_tie by simp
qed

text \<open>
  What the code does keep of the claim: a search that returns has stored a grid point
  inside the window, also when a larger value of the surface lies outside it (in the
  example the value \<open>5\<close> outside, the peak \<open>3\<close> inside).
\<close>

lemma default_peak_inside_window:
  assumes "snr_at_peak self = Inr self'"
  shows "\<exists>indh indv. KpV_indh self' = Some indh \<and> KpV_indv self' = Some indv
           \<and> indh < length (KpV_kpVec self) \<and> indv < length (KpV_vrestVec self)
           \<and> KpV_peak_pos self' = Some (KpV_vrestVec self ! indv, KpV_kpVec self ! indh)
           \<and> \<bar>KpV_kpVec self ! indh - mean (KpV_kpVec self)\<bar> < 10
           \<and> \<bar>KpV_vrestVec self ! indv\<bar> < 5"
proof -
  let ?mask_kp = "map (\<lambda>k. \<bar>k - mean (KpV_kpVec self)\<bar> < 10) (KpV_kpVec self)"
  let ?mask_dv = "map (\<lambda>v. \<bar>v\<bar> < 5) (KpV_vrestVec self)"
  from assms obtain s where s: "snr self = Inr s"
    by (auto simp: snr_at_peak_def split: sum.splits if_splits)
  from assms s have ne: "concat s \<noteq> []"
    by (auto simp: snr_at_peak_def Let_def split: if_splits)
  from assms s ne have lk: "length ?mask_kp = length s"
    by (auto simp: snr_at_peak_def Let_def split: if_splits)
  from assms s ne lk have ld: "\<forall>row \<in> set (clamp_rows ?mask_kp s). length row = length ?mask_dv"
    by (auto simp: snr_at_peak_def Let_def split: if_splits)
  from assms s ne lk ld obtain indh indv
    where hit: "argwhere_max (clamp_cols ?mask_dv (clamp_rows ?mask_kp s)) = [(indh, indv)]"
      and self': "self' = self\<lparr> KpV_indh := Some indh, KpV_indv := Some indv,
                    KpV_peak_pos := Some (KpV_vrestVec self ! indv, KpV_kpVec self ! indh),
                    KpV_peak_snr := Some (s ! indh ! indv) \<rparr>"
    by (auto simp: snr_at_peak_def Let_def split: if_splits list.splits prod.splits)
  note two = snr_two_positions[OF s ne, THEN conjunct2, THEN conjunct2]
  from clamped_peak_in_window[OF ne lk ld two hit]
  have w: "indh < length s" "indv < length (s ! indh)" "?mask_kp ! indh" "?mask_dv ! indv"
    by simp_all
  have ih: "indh < length (KpV_kpVec self)" using w(1) lk by simp
  have "clamp_rows ?mask_kp s ! indh \<in> set (clamp_rows ?mask_kp s)"
    using w(1) clamp_rows_shape(1)[OF lk] by simp
  then have "length (clamp_rows ?mask_kp s ! indh) = length ?mask_dv"
    using ld by blast
  then have "length (s ! indh) = length (KpV_vrestVec self)"
    using clamp_rows_shape(2)[OF lk w(1)] by simp
  then have iv: "indv < length (KpV_vrestVec self)" using w(2) by simp
  have "\<bar>KpV_kpVec self ! indh - mean (KpV_kpVec self)\<bar> < 10"
    using w(3) ih by simp
  moreover have "\<bar>KpV_vrestVec self ! indv\<bar> < 5"
    using w(4) iv by simp
  ultimately show ?thesis
    using self' ih iv by simp
qed

lemma default_peak_inside_window_example:
  "snr kpv_peak = Inr [[-1, 5, 1], [1, 3, -1], [-1, 2, 1]]
   \<and> snr_at_peak kpv_peak
       = Inr (kpv_peak\<lparr> KpV_indh := Some 1, KpV_indv := Some 1, KpV_peak_pos := Some (0, 100),
                         KpV_peak_snr := Some 3 \<rparr>)
   \<and> \<bar>KpV_kpVec kpv_peak ! 1 - mean (KpV_kpVec kpv_peak)\<bar> < 10
   \<and> \<bar>KpV_vrestVec kpv_peak ! 1\<bar> < 5"
proof -
  let ?r = "kpv_peak\<lparr> KpV_indh := Some 1, KpV_indv := Some 1, KpV_peak_pos := Some (0, 100),
                       KpV_peak_snr := Some 3 \<rparr>"
  from default_peak_inside_window [OF snr_at_peak_example]
  obtain indh indv where a: "KpV_indh ?r = Some indh" "KpV_indv ?r = Some indv"
      and w: "\<bar>KpV_kpVec kpv_peak ! indh - mean (KpV_kpVec kpv_peak)\<bar> < 10"
             "\<bar>KpV_vrestVec kpv_peak ! indv\<bar> < 5"
    by blast
  from a have "indh = 1" "indv = 1"
    by simp_all
  with w have "\<bar>KpV_kpVec kpv_peak ! 1 - mean (KpV_kpVec kpv_peak)\<bar> < 10"
      and "\<bar>KpV_vrestVec kpv_peak ! 1\<bar> < 5"
    by simp_all
  with snr_peak snr_at_peak_example show ?thesis
    by blast
qed

section \<open>Merging maps\<close>

text \<open>
  C6 (as amended). A merge that succeeds stores the element-wise sum of the
  baseline-subtracted maps of its inputs, in the shape of the first map, and the stored
  map does not depend on the order of the list: every permutation of the list merges to
  the same \<^verbatim>\<open>ccf_map\<close>.
\<close>

theorem merge_kpvs_sum_any_order:
  assumes m: "merge_kpvs ks = Inr r"
      and p: "mset ks' = mset ks"
  shows "KpV_ccf_map r = Some (sum_maps (map subtracted ks))
       \<and> length (sum_maps (map subtracted ks)) = length (the (KpV_ccf_map (hd ks)))
       \<and> (\<forall>i < length (the (KpV_ccf_map (hd ks))).
             length (sum_maps (map subtracted ks) ! i) = length (the (KpV_ccf_map (hd ks)) ! i)
           \<and> (\<forall>j < length (the (KpV_ccf_map (hd ks)) ! i).
                 sum_maps (map subtracted ks) ! i ! j = (\<Sum>k\<leftarrow>ks. subtracted k ! i ! j)))
       \<and> (\<exists>r'. merge_kpvs ks' = Inr r' \<and> KpV_ccf_map r' = KpV_ccf_map r)"
proof -
  note c = iffD1[OF merge_kpvs_iff, OF m]
  note ne = c[THEN conjunct1]
  note b = c[THEN conjunct2, THEN conjunct1]
  note sh = c[THEN conjunct2, THEN conjunct2, THEN conjunct1]
  note nan = c[THEN conjunct2, THEN conjunct2, THEN conjunct2, THEN conjunct1]
  note r = c[THEN conjunct2, THEN conjunct2, THEN conjunct2, THEN conjunct2]
  have ne': "ks' \<noteq> []" using ne p by auto
  have set: "set ks' = set ks" using p by (rule mset_eq_setD)
  have "hd ks' \<in> set ks" using ne' set by (metis hd_in_set)
  then have h: "map length (the (KpV_ccf_map (hd ks'))) = map length (the (KpV_ccf_map (hd ks)))"
    using sh by blast
  have sh': "\<forall>k \<in> set ks'. map length (the (KpV_ccf_map k)) = map length (the (KpV_ccf_map (hd ks')))"
    using sh set h by simp
  have nan': "concat (the (KpV_ccf_map (hd ks'))) = [] \<or> (\<forall>k \<in> set ks'. projr (baseline k) \<noteq> None)"
    using nan set concat_empty_shape[OF h] by simp
  have b': "\<forall>k \<in> set ks'. \<exists>b. baseline k = Inr b"
    using b set by simp
  have "merge_kpvs ks' = Inr ((hd ks')\<lparr>KpV_ccf_map := Some (sum_maps (map subtracted ks'))\<rparr>)"
    by (rule iffD2[OF merge_kpvs_iff]) (intro conjI ne' b' sh' nan' refl)
  moreover have "sum_maps (map subtracted ks') = sum_maps (map subtracted ks)"
    using ne p sh by (rule sum_maps_subtracted_perm)
  ultimately have perm: "\<exists>r'. merge_kpvs ks' = Inr r' \<and> KpV_ccf_map r' = KpV_ccf_map r"
    using r by simp
  have hd0: "hd (map subtracted ks) = subtracted (hd ks)" using ne by (simp add: hd_map)
  have sm: "sum_maps (map subtracted ks)
              = map (\<lambda>i. map (\<lambda>j. \<Sum>k\<leftarrow>ks. subtracted k ! i ! j)
                            [0 ..< length (subtracted (hd ks) ! i)])
                  [0 ..< length (subtracted (hd ks))]"
    using sum_maps_nonempty[of "map subtracted ks"] ne hd0 by (simp add: comp_def)
  have l: "length (subtracted (hd ks)) = length (the (KpV_ccf_map (hd ks)))"
    by (simp add: subtracted_def)
  have w: "\<And>i. i < length (the (KpV_ccf_map (hd ks))) \<Longrightarrow>
             length (subtracted (hd ks) ! i) = length (the (KpV_ccf_map (hd ks)) ! i)"
    by (simp add: subtracted_def)
  have "length (sum_maps (map subtracted ks)) = length (the (KpV_ccf_map (hd ks)))"
    unfolding sm using l by simp
  moreover have "\<forall>i < length (the (KpV_ccf_map (hd ks))).
             length (sum_maps (map subtracted ks) ! i) = length (the (KpV_ccf_map (hd ks)) ! i)
           \<and> (\<forall>j < length (the (KpV_ccf_map (hd ks)) ! i).
                 sum_maps (map subtracted ks) ! i ! j = (\<Sum>k\<leftarrow>ks. subtracted k ! i ! j))"
    unfolding sm using l w by simp
  ultimately show ?thesis using r perm by simp
qed

theorem merge_kpvs_sum_any_order_witness:
  "merge_kpvs [kpv_bg [[0, 0, 3]], kpv_bg [[0, 3, 0]], kpv_bg [[0, 0, 0]]] = Inr (kpv_bg [[0, 3, 3]])
   \<and> (\<exists>r'. merge_kpvs [kpv_bg [[0, 0, 0]], kpv_bg [[0, 0, 3]], kpv_bg [[0, 3, 0]]] = Inr r'
           \<and> KpV_ccf_map r' = Some [[0, 3, 3]])"
proof -
  have m: "merge_kpvs [kpv_bg [[0, 0, 3]], kpv_bg [[0, 3, 0]], kpv_bg [[0, 0, 0]]]
             = Inr (kpv_bg [[0, 3, 3]])"
    using merge_bg_triple[OF medians(1) medians(2) medians(3)] by simp
  have p: "mset [kpv_bg [[0, 0, 0]], kpv_bg [[0, 0, 3]], kpv_bg [[0, 3, 0]]]
             = mset [kpv_bg [[0, 0, 3]], kpv_bg [[0, 3, 0]], kpv_bg [[0, 0, 0]]]"
    by simp
  from merge_kpvs_sum_any_order [OF m p]
  have "\<exists>r'. merge_kpvs [kpv_bg [[0, 0, 0]], kpv_bg [[0, 0, 3]], kpv_bg [[0, 3, 0]]] = Inr r'
              \<and> KpV_ccf_map r' = KpV_ccf_map (kpv_bg [[0, 3, 3]])"
    by blast
  moreover have "KpV_ccf_map (kpv_bg [[0, 3, 3]]) = Some [[0, 3, 3]]"
    by (simp add: kpv_bg_def)
  ultimately show ?thesis
    using m by simp
qed

text \<open>
  C6 (as stated) fails for the grouping: a merge of a merge subtracts the baseline of the
  intermediate sum once more. The maps \<open>[0, 0, 3]\<close>, \<open>[0, 3, 0]\<close> and \<open>[0, 0, 0]\<close>
  (all of median \<open>0\<close>) merge to \<open>[0, 3, 3]\<close> at once and when the last two are merged
  first, and to \<open>[-3, 0, 0]\<close> when the first two are merged first.
\<close>

theorem merge_kpvs_grouping_differs:
  "merge_kpvs [kpv_bg [[0, 0, 3]], kpv_bg [[0, 3, 0]]] = Inr (kpv_bg [[0, 3, 3]])
   \<and> merge_kpvs [kpv_bg [[0, 3, 3]], kpv_bg [[0, 0, 0]]] = Inr (kpv_bg [[-3, 0, 0]])
   \<and> merge_kpvs [kpv_bg [[0, 3, 0]], kpv_bg [[0, 0, 0]]] = Inr (kpv_bg [[0, 3, 0]])
   \<and> merge_kpvs [kpv_bg [[0, 0, 3]], kpv_bg [[0, 3, 0]]] = Inr (kpv_bg [[0, 3, 3]])
   \<and> merge_kpvs [kpv_bg [[0, 0, 3]], kpv_bg [[0, 3, 0]], kpv_bg [[0, 0, 0]]]
       = Inr (kpv_bg [[0, 3, 3]])
   \<and> KpV_ccf_map (kpv_bg [[-3, 0, 0]]) \<noteq> KpV_ccf_map (kpv_bg [[0, 3, 3]])"
  using merge_bg_pair[OF medians(1) medians(2)] merge_bg_pair[OF medians(4) medians(3)]
        merge_bg_pair[OF medians(2) medians(3)]
        merge_bg_triple[OF medians(1) medians(2) medians(3)]
  by (simp add: kpv_bg_def)

section \<open>The ephemeris after \<^verbatim>\<open>run\<close>\<close>

text \<open>
  C8 (as amended). The constructor copies the ephemeris; \<^verbatim>\<open>run\<close> writes the trial
  \<open>Kp\<close> into the copy only. After \<^verbatim>\<open>run\<close> returns, every object the caller had before
  the mapper was built, its ephemeris included, is what it was; the mapper's own
  ephemeris holds the last trial value, \<open>kpVec[-1]\<close>.
\<close>

theorem run_keeps_callers_ephemeris:
  assumes init: "KpV_init h ccf p deltaRV kp_radius vrest_max bkg = Inr (h1, self)"
      and run: "run RV mask_eclipse h1 self ignore_eclipse = Inr (h2, self')"
  shows "(\<forall>a < length h. h2 ! a = h ! a)
       \<and> KpV_planet self' = KpV_planet self \<and> KpV_planet self \<noteq> p
       \<and> (KpV_kpVec self \<noteq> [] \<longrightarrow> Kp (h2 ! KpV_planet self) = last (KpV_kpVec self))
       \<and> (KpV_kpVec self = [] \<longrightarrow> h2 = h1)"
proof -
  note i = KpV_init_store[OF init]
  let ?q = "KpV_planet self"
  from run obtain frames m where
      loop: "run_loop RV (KpV_ccf self) (KpV_vrestVec self) frames ?q h1 (KpV_kpVec self) = Inr (h2, m)"
      and s': "self' = self\<lparr>KpV_ccf_map := Some m\<rparr>"
    by (auto simp: run_def Let_def split: sum.splits)
  note r = run_loop_store[OF loop]
  have q: "?q = length h" "?q < length h1" "p < length h" using i by simp_all
  have "\<forall>a < length h. h2 ! a = h ! a"
    using r i q by simp
  moreover have "KpV_kpVec self \<noteq> [] \<longrightarrow> Kp (h2 ! ?q) = last (KpV_kpVec self)"
    using r q by simp
  moreover have "KpV_kpVec self = [] \<longrightarrow> h2 = h1"
    using loop by auto
  ultimately show ?thesis using s' q by simp
qed

theorem run_keeps_callers_ephemeris_witness:
  "[\<lparr>Kp = 100, frame = None\<rparr>, \<lparr>Kp = 125, frame = Some ''telluric''\<rparr>] ! 0
     = [\<lparr>Kp = 100, frame = None\<rparr>] ! 0
   \<and> KpV_planet kpv_run_example \<noteq> 0
   \<and> Kp ([\<lparr>Kp = 100, frame = None\<rparr>, \<lparr>Kp = 125, frame = Some ''telluric''\<rparr>]
            ! KpV_planet kpv_run_example) = last (KpV_kpVec kpv_run_example)"
proof -
  note t = run_keeps_callers_ephemeris [OF KpV_init_run_example run_example]
  have ne: "KpV_kpVec kpv_run_example \<noteq> []"
    by (simp add: kpv_run_example_def)
  have "(0::nat) < length [\<lparr>Kp = 100, frame = None\<rparr>]"
    by simp
  with t have a: "[\<lparr>Kp = 100, frame = None\<rparr>, \<lparr>Kp = 125, frame = Some ''telluric''\<rparr>] ! 0
                    = [\<lparr>Kp = 100, frame = None\<rparr>] ! 0"
    by blast
  from t have b: "KpV_planet kpv_run_example \<noteq> 0"
    by blast
  from t ne
  have "Kp ([\<lparr>Kp = 100, frame = None\<rparr>, \<lparr>Kp = 125, frame = Some ''telluric''\<rparr>]
              ! KpV_planet kpv_run_example) = last (KpV_kpVec kpv_run_example)"
    by blast
  with a b show ?thesis
    by blast
qed

text \<open>
  C8 (as stated) fails for the mapper's ephemeris: built from an ephemeris with
  \<open>Kp = 100\<close>, the mapper's copy holds \<open>Kp = 100\<close> before \<^verbatim>\<open>run\<close> and \<open>Kp = 125\<close>, the
  last trial value, after it.
\<close>

theorem trial_Kp_persists_on_mapper:
  "KpV_init [\<lparr>Kp = 100, frame = None\<rparr>] ccf_example 0 None 75 50 None
     = Inr ([\<lparr>Kp = 100, frame = None\<rparr>, \<lparr>Kp = 100, frame = Some ''telluric''\<rparr>],
            kpv_run_example)
   \<and> run (\<lambda>p. [Kp p / 5]) (\<lambda>p. [False])
         [\<lparr>Kp = 100, frame = None\<rparr>, \<lparr>Kp = 100, frame = Some ''telluric''\<rparr>]
         kpv_run_example True
       = Inr ([\<lparr>Kp = 100, frame = None\<rparr>, \<lparr>Kp = 125, frame = Some ''telluric''\<rparr>],
              kpv_run_example
                \<lparr>KpV_ccf_map :=
                   Some [[13/10, 37/10, 9/10], [19/10, 31/10, 7/10], [5/2, 5/2, 1/2]]\<rparr>)
   \<and> KpV_planet kpv_run_example = 1
   \<and> Kp ([\<lparr>Kp = 100, frame = None\<rparr>, \<lparr>Kp = 100, frame = Some ''telluric''\<rparr>] ! 1) = 100
   \<and> Kp ([\<lparr>Kp = 100, frame = None\<rparr>, \<lparr>Kp = 125, frame = Some ''telluric''\<rparr>] ! 1) = 125"
  using KpV_init_run_example run_example
  by (simp add: kpv_run_example_def)

section \<open>Frames with too few valid points\<close>

text \<open>
  C9 (as amended). \<^verbatim>\<open>get_shift\<close> never signals \<open>DegenerateInputError\<close>. When fewer
  than four pixels are valid in both frames after clipping, the failure is the
  \<^verbatim>\<open>TypeError\<close> of \<^verbatim>\<open>splrep\<close> (\<^verbatim>\<open>'m > k must hold'\<close>): nothing is validated before
  the library is called.
\<close>

theorem get_shift_propagates_library_error:
  "get_shift spl self j \<noteq> Inl DegenerateInputError
   \<and> (j < length (Align_flux self) \<and> j < length (Align_ccf self)
        \<and> length (Align_pixels self) = length (valid self j)
        \<and> length (filter id (valid self j)) < 4
       \<longrightarrow> get_shift spl self j = Inl TypeError)"
proof -
  have a: "get_shift spl self j \<noteq> Inl DegenerateInputError"
    by (auto simp: get_shift_def splrep_def Let_def split: sum.splits if_splits)
  have b: "get_shift spl self j = Inl TypeError"
    if h: "j < length (Align_flux self)" "j < length (Align_ccf self)"
          "length (Align_pixels self) = length (valid self j)"
          "length (filter id (valid self j)) < 4"
  proof -
    have "length (select (valid self j) (Align_pixels self)) \<le> 3"
      using length_select_le[of "valid self j" "Align_pixels self"] h(4) by simp
    then have "splrep (select (valid self j) (Align_pixels self))
                 (map the (select (valid self j) (clipped self j ! j))) = Inl TypeError"
      by (simp add: splrep_def)
    then show ?thesis
      using h(1,2,3) by (simp add: get_shift_def Let_def)
  qed
  from a b show ?thesis by blast
qed

theorem get_shift_propagates_library_error_witness:
  "length (filter id (valid align_example 1)) = 2
   \<and> get_shift interp_at align_example 1 = Inl TypeError"
proof -
  have v: "length (filter id (valid align_example 1)) = 2"
    by (simp add: valid_example)
  have "1 < length (Align_flux align_example) \<and> 1 < length (Align_ccf align_example)
        \<and> length (Align_pixels align_example) = length (valid align_example 1)
        \<and> length (filter id (valid align_example 1)) < 4"
    by (simp add: valid_example) (simp add: align_example_def)
  with get_shift_propagates_library_error [of interp_at align_example 1] v
  show ?thesis by blast
qed

text \<open>
  C9 (as stated) fails: two frames of five pixels that share two valid pixels end in
  \<^verbatim>\<open>TypeError\<close>.
\<close>

theorem get_shift_raises_TypeError:
  "valid align_example 1 = [True, False, False, True, False]
   \<and> get_shift interp_at align_example 1 = Inl TypeError
   \<and> get_shift interp_at align_example 1 \<noteq> Inl DegenerateInputError"
proof -
  have "get_shift interp_at align_example 1 = Inl TypeError"
    by (simp add: get_shift_def valid_example clipped_example Let_def splrep_def select_def)
       (simp add: align_example_def)
  then show ?thesis using valid_example by simp
qed

section \<open>Truthiness of the optional parameters\<close>

text \<open>
  C10. The constructor tests \<^verbatim>\<open>bkg\<close> and \<^verbatim>\<open>deltaRV\<close> for truthiness: passing
  \<^verbatim>\<open>bkg = 0\<close> or \<^verbatim>\<open>deltaRV = 0\<close> builds exactly the mapper that passing \<^verbatim>\<open>None\<close>
  builds; the mapper built with \<^verbatim>\<open>bkg = 0\<close> has the threshold \<open>0.60 * vrest_max\<close>,
  the one built with \<^verbatim>\<open>deltaRV = 0\<close> has the resolution of the CCF.
\<close>

theorem KpV_init_zero_is_default:
  "KpV_init h ccf p deltaRV kp_radius vrest_max (Some 0)
     = KpV_init h ccf p deltaRV kp_radius vrest_max None
   \<and> KpV_init h ccf p (Some 0) kp_radius vrest_max bkg
     = KpV_init h ccf p None kp_radius vrest_max bkg
   \<and> (\<forall>h' k. KpV_init h ccf p deltaRV kp_radius vrest_max (Some 0) = Inr (h', k)
        \<longrightarrow> KpV_bkg k = 0.60 * vrest_max)
   \<and> (\<forall>h' k. KpV_init h ccf p (Some 0) kp_radius vrest_max bkg = Inr (h', k)
        \<longrightarrow> CCF_dRV ccf = Some (KpV_dRV k))"
  by (auto simp: KpV_init_def truthy_or_def Let_def split: prod.splits option.splits sum.splits if_splits)

theorem KpV_init_zero_is_default_witness:
  "KpV_init [\<lparr>Kp = 100, frame = None\<rparr>] ccf_example 0 (Some 0) 50 80 (Some 0)
     = KpV_init [\<lparr>Kp = 100, frame = None\<rparr>] ccf_example 0 None 50 80 None
   \<and> (\<exists>h' k. KpV_init [\<lparr>Kp = 100, frame = None\<rparr>] ccf_example 0 (Some 0) 50 80 (Some 0)
                = Inr (h', k)
            \<and> KpV_bkg k = 48 \<and> KpV_dRV k = 50)"
proof -
  let ?h = "[\<lparr>Kp = 100, frame = None\<rparr>]"
  have "\<exists>h' k. KpV_init ?h ccf_example 0 (Some 0) 50 80 (Some 0) = Inr (h', k)"
    by (simp add: KpV_init_def deepcopy_def arange_def ccf_example_def)
  then obtain h' k
    where k: "KpV_init ?h ccf_example 0 (Some 0) 50 80 (Some 0) = Inr (h', k)"
    by blast
  note t = KpV_init_zero_is_default [of ?h ccf_example 0 "Some 0" 50 80 "Some 0"]
  note u = KpV_init_zero_is_default [of ?h ccf_example 0 None 50 80 "Some 0"]
  have a: "KpV_init ?h ccf_example 0 (Some 0) 50 80 (Some 0)
             = KpV_init ?h ccf_example 0 None 50 80 (Some 0)"
    using t by blast
  have b: "KpV_init ?h ccf_example 0 None 50 80 (Some 0)
             = KpV_init ?h ccf_example 0 None 50 80 None"
    using u by blast
  have "KpV_bkg k = 0.60 * 80"
    using t k by blast
  then have c: "KpV_bkg k = 48"
    by simp
  have "CCF_dRV ccf_example = Some (KpV_dRV k)"
    using t k by blast
  then have d: "KpV_dRV k = 50"
    by (simp add: ccf_example_def)
  from a b have "KpV_init ?h ccf_example 0 (Some 0) 50 80 (Some 0)
                   = KpV_init ?h ccf_example 0 None 50 80 None"
    by (rule trans)
  with k c d show ?thesis
    by blast
qed

end
